theory Spec2Isabelle
  imports Main "HOL-Library.AList"
begin

section \<open>JavaScript values and the string primitives the route uses\<close>

text \<open>
  The route file \<^verbatim>\<open>apps/sim/app/api/workflows/[id]/execute/route.ts\<close> handles untyped
  values (\<^verbatim>\<open>any\<close>): sub-block values, the request input, the workflow variables and the
  engine's result. They are modelled by one datatype of JavaScript values. An object is
  its list of own properties in insertion order (\<^verbatim>\<open>Object.entries\<close> order); numbers are
  integers, since no arithmetic is done on them here.
\<close>

datatype jsval =
    Undefined
  | Null
  | Bool bool
  | Num int
  | Str string
  | Arr "jsval list"
  | Obj "(string \<times> jsval) list"

text \<open>Truthiness, as tested by \<^verbatim>\<open>if (v)\<close>, \<^verbatim>\<open>!v\<close> and \<^verbatim>\<open>a || b\<close>.\<close>

fun truthy :: "jsval \<Rightarrow> bool" where
  "truthy Undefined = False"
| "truthy Null = False"
| "truthy (Bool b) = b"
| "truthy (Num n) = (n \<noteq> 0)"
| "truthy (Str s) = (s \<noteq> [])"
| "truthy (Arr xs) = True"
| "truthy (Obj kvs) = True"

text \<open>Decimal printing of a number inside a template string.\<close>

function showNat :: "nat \<Rightarrow> string" where
  "showNat n = (if n < 10 then [char_of (48 + n)]
                else showNat (n div 10) @ [char_of (48 + n mod 10)])"
  by pat_completeness auto
termination
  by (relation "measure (\<lambda>n. n)") auto

declare showNat.simps [simp del]

text \<open>
  \<^verbatim>\<open>Object.keys(v).length\<close>: a TypeError (\<open>None\<close>) on \<^verbatim>\<open>undefined\<close> and \<^verbatim>\<open>null\<close>, the
  number of own enumerable properties otherwise.
\<close>

fun objectKeysLength :: "jsval \<Rightarrow> nat option" where
  "objectKeysLength Undefined = None"
| "objectKeysLength Null = None"
| "objectKeysLength (Obj kvs) = Some (length kvs)"
| "objectKeysLength (Arr xs) = Some (length xs)"
| "objectKeysLength (Str s) = Some (length s)"
| "objectKeysLength (Bool b) = Some 0"
| "objectKeysLength (Num n) = Some 0"

text \<open>
  The object spread \<^verbatim>\<open>{...v}\<close>: the own enumerable properties of \<open>v\<close>; none for
  \<^verbatim>\<open>undefined\<close>, \<^verbatim>\<open>null\<close>, booleans and numbers, the indexed elements for arrays and
  strings.
\<close>

fun spread :: "jsval \<Rightarrow> (string \<times> jsval) list" where
  "spread (Obj kvs) = kvs"
| "spread (Arr xs) = zip (map showNat [0..<length xs]) xs"
| "spread (Str s) = zip (map showNat [0..<length s]) (map (\<lambda>c. Str [c]) s)"
| "spread v = []"

text \<open>\<^verbatim>\<open>value.includes(sub)\<close>.\<close>

fun str_includes :: "string \<Rightarrow> string \<Rightarrow> bool" where
  "str_includes [] sub = (sub = [])"
| "str_includes (c # cs) sub = (take (length sub) (c # cs) = sub \<or> str_includes cs sub)"

text \<open>
  \<^verbatim>\<open>value.match(/{{([^}]+)}}/g)\<close>: all non-overlapping matches, scanned from the left.
  At a position the pattern matches when the text starts with two opening braces, is
  followed by a non-empty maximal run of characters other than a closing brace, and
  that run is followed by two closing braces (a shorter run is followed by a character
  of the run, so backtracking never helps). After a match the scan goes on behind it,
  otherwise at the next character. JavaScript returns \<^verbatim>\<open>null\<close> for no match: here the
  empty list.
\<close>

function matchAll :: "string \<Rightarrow> string list" where
  "matchAll [] = []"
| "matchAll (c # cs) =
     (let name = takeWhile (\<lambda>x. x \<noteq> CHR ''}'') (drop 1 cs);
          rest = dropWhile (\<lambda>x. x \<noteq> CHR ''}'') (drop 1 cs)
      in if take 2 (c # cs) = ''{{'' \<and> name \<noteq> [] \<and> take 2 rest = ''}}''
         then (''{{'' @ name @ ''}}'') # matchAll (drop 2 rest)
         else matchAll cs)"
  by pat_completeness auto
termination
proof (relation "measure length")
  fix c :: char and cs name rest
  assume "rest = dropWhile (\<lambda>x. x \<noteq> CHR ''}'') (drop 1 cs)"
  moreover have "length (dropWhile (\<lambda>x. x \<noteq> CHR ''}'') (drop 1 cs)) \<le> length cs"
    by (rule le_trans [OF length_dropWhile_le]) simp
  ultimately show "(drop 2 rest, c # cs) \<in> measure length"
    by simp
qed simp_all

text \<open>\<^verbatim>\<open>match.slice(2, -2)\<close>: the text between the braces.\<close>

definition slice_2_neg2 :: "string \<Rightarrow> string" where
  "slice_2_neg2 m = take (length m - 4) (drop 2 m)"

text \<open>
  \<^verbatim>\<open>String.prototype.replace(pattern, replacement)\<close> with a string pattern: only the first
  occurrence of the pattern is replaced, and the replacement text is a template in
  which \<^verbatim>\<open>$$\<close> stands for a dollar sign, \<^verbatim>\<open>$&\<close> for the matched text, the dollar-backtick
  pair for the text before the match and the dollar-quote pair for the text after it
  (ECMAScript GetSubstitution; with a string pattern there are no capture groups, so
  every other use of the dollar sign is copied as it is).
\<close>

fun splitAtFirst :: "string \<Rightarrow> string \<Rightarrow> (string \<times> string) option" where
  "splitAtFirst [] pat = (if pat = [] then Some ([], []) else None)"
| "splitAtFirst (c # cs) pat =
     (if take (length pat) (c # cs) = pat then Some ([], drop (length pat) (c # cs))
      else map_option (\<lambda>(front, back). (c # front, back)) (splitAtFirst cs pat))"

fun getSubstitution :: "string \<Rightarrow> string \<Rightarrow> string \<Rightarrow> string \<Rightarrow> string" where
  "getSubstitution matched front back [] = []"
| "getSubstitution matched front back [c] = [c]"
| "getSubstitution matched front back (c # d # t) =
     (if c = CHR ''$'' \<and> d = CHR ''$'' then CHR ''$'' # getSubstitution matched front back t
      else if c = CHR ''$'' \<and> d = CHR ''&'' then matched @ getSubstitution matched front back t
      else if c = CHR ''$'' \<and> d = CHR 0x60 then front @ getSubstitution matched front back t
      else if c = CHR ''$'' \<and> d = CHR 0x27 then back @ getSubstitution matched front back t
      else c # getSubstitution matched front back (d # t))"

definition str_replace :: "string \<Rightarrow> string \<Rightarrow> string \<Rightarrow> string" where
  "str_replace s pat replacement =
     (case splitAtFirst s pat of
        None \<Rightarrow> s
      | Some (front, back) \<Rightarrow>
          front @ getSubstitution pat front back replacement @ back)"

text \<open>A name in double quotes, as the error messages print it.\<close>

definition quoted :: "string \<Rightarrow> string" where
  "quoted s = CHR 0x22 # s @ [CHR 0x22]"

section \<open>Errors, data model and collaborators\<close>

text \<open>
  What the route throws: a plain \<^verbatim>\<open>Error\<close> with its message (the built-in error classes
  are not told apart, the boundary reads only the message), or the route's own
  \<^verbatim>\<open>UsageLimitError\<close>, which carries a message and a status code.
\<close>

datatype thrown =
    Error string
  | UsageLimitError string nat

fun message_of :: "thrown \<Rightarrow> string" where
  "message_of (Error m) = m"
| "message_of (UsageLimitError m statusCode) = m"

text \<open>The constructor of \<^verbatim>\<open>UsageLimitError\<close> (lines 38-46): status code 402.\<close>

definition new_UsageLimitError :: "string \<Rightarrow> thrown" where
  "new_UsageLimitError m = UsageLimitError m 402"

text \<open>
  A block is represented by its sub-blocks, each sub-block by its \<^verbatim>\<open>value\<close> field: the
  only part of a block this file reads. Edges, loops and parallels are passed through
  to the serializer unread.
\<close>

record block =
  subBlocks :: "(string \<times> jsval) list"

record workflow_state =
  blocks :: "(string \<times> block) list"
  edges :: jsval
  loops :: jsval
  parallels :: jsval

record workflow =
  workflow_id :: string
  userId :: string
  deployedState :: "workflow_state option"
  variables :: jsval

record usage_status =
  isExceeded :: bool
  currentUsage :: int
  limit :: int
  usage_message :: "string option"

text \<open>The five arguments of \<^verbatim>\<open>new Executor(...)\<close> (lines 255-261).\<close>

record executor_args =
  serializedWorkflow :: jsval
  blockStates :: "(string \<times> (string \<times> jsval) list) list"
  envVars :: "(string \<times> string) list"
  workflowInput :: jsval
  workflowVariables :: jsval

record request =
  bodyText :: string

datatype validation =
    ValidationError string nat
  | ValidationOk workflow

text \<open>
  The responses built by \<^verbatim>\<open>createErrorResponse(message, status, code?)\<close>,
  \<^verbatim>\<open>createSuccessResponse(result)\<close> and \<^verbatim>\<open>createHttpResponseFromBlock(result)\<close>.
\<close>

datatype response =
    ErrorResponse string nat "string option"
  | SuccessResponse jsval
  | HttpResponseFromBlock jsval

text \<open>
  The collaborators the file imports, as parameters. \<^verbatim>\<open>decryptSecret\<close> and \<^verbatim>\<open>JSON.parse\<close>
  are called inside local \<^verbatim>\<open>try\<close> blocks that read only the message of what they catch,
  and the engine may raise any fault: their failure outcome is \<open>Inl\<close> of the message.
  \<^verbatim>\<open>EnvVarsSchema.parse\<close> throws on a record that is not one of strings. Everything that
  is called between the engine's return and the end of the function can fail as well,
  and what it throws travels on as it is: the update of the run counter
  (\<^verbatim>\<open>updateWorkflowRunCounts\<close>, line 276), the update of the owner's statistics (lines
  279-285), \<^verbatim>\<open>buildTraceSpans\<close> (line 289), \<^verbatim>\<open>persistExecutionLogs\<close> (line 299) and, in
  the \<^verbatim>\<open>catch\<close> block, \<^verbatim>\<open>persistExecutionError\<close> (line 305); their failure outcome is
  \<open>Inl\<close> of the thrown value. The access validation, the usage lookup, the two reads of
  the store that come before the engine, \<^verbatim>\<open>mergeSubblockState\<close> and the serializer are
  taken to return. The engine returns an object, given by its properties.
  \<open>selectEnvironment\<close> is the \<^verbatim>\<open>variables\<close> field of the owner's environment row
  (\<open>None\<close>: no row), \<open>zodMessage\<close> the message of the error \<^verbatim>\<open>EnvVarsSchema.parse\<close>
  throws, \<open>randomUUID\<close> the value of \<^verbatim>\<open>crypto.randomUUID()\<close>, \<open>uuidv4\<close> the fresh
  execution id.
\<close>

record env =
  uuidv4 :: string
  randomUUID :: string
  validateWorkflowAccess :: "request \<Rightarrow> string \<Rightarrow> validation"
  checkServerSideUsageLimits :: "string \<Rightarrow> usage_status"
  loadWorkflowFromNormalizedTables :: "string \<Rightarrow> workflow_state option"
  mergeSubblockState :: "(string \<times> block) list \<Rightarrow> (string \<times> block) list"
  selectEnvironment :: "string \<Rightarrow> jsval option"
  zodMessage :: string
  decryptSecret :: "string \<Rightarrow> string + string"
  jsonParse :: "string \<Rightarrow> string + jsval"
  serializeWorkflow :: "(string \<times> block) list \<Rightarrow> jsval \<Rightarrow> jsval \<Rightarrow> jsval \<Rightarrow> jsval"
  execute :: "executor_args \<Rightarrow> string \<Rightarrow> string + (string \<times> jsval) list"
  updateWorkflowRunCounts :: "string \<Rightarrow> thrown + unit"
  updateUserStats :: "string \<Rightarrow> thrown + unit"
  buildTraceSpans :: "jsval \<Rightarrow> thrown + (jsval \<times> jsval)"
  persistExecutionLogs :: "string \<Rightarrow> string \<Rightarrow> (string \<times> jsval) list \<Rightarrow> thrown + unit"
  persistExecutionError :: "string \<Rightarrow> string \<Rightarrow> thrown \<Rightarrow> thrown + unit"
  workflowHasResponseBlock :: "jsval \<Rightarrow> bool"

section \<open>State and effects\<close>

text \<open>
  The observable effects of a call, in order: the logger calls (level and first
  argument; the further arguments are dropped) and the calls to the external stores and
  services.
\<close>

datatype level = DEBUG | INFO | WARN | ERROR

datatype event =
    Log level string
  | ValidateAccess string
  | CheckUsage string
  | LoadWorkflow string
  | SelectEnvironment string
  | DecryptSecret string
  | Execute executor_args string
  | UpdateWorkflowRunCounts string
  | UpdateUserStats string
  | PersistExecutionLogs string string "(string \<times> jsval) list"
  | PersistExecutionError string string thrown

text \<open>
  The state: the module-level \<^verbatim>\<open>runningExecutions\<close> set (line 35) and the trace of
  effects so far.
\<close>

record state =
  runningExecutions :: "string set"
  events :: "event list"

text \<open>
  An asynchronous function is a state transformer that returns a value (\<open>Inr\<close>) or
  throws (\<open>Inl\<close>).
\<close>

type_synonym 'a action = "state \<Rightarrow> (thrown + 'a) \<times> state"

definition ret :: "'a \<Rightarrow> 'a action" where
  "ret x = (\<lambda>s. (Inr x, s))"

definition throw :: "thrown \<Rightarrow> 'a action" where
  "throw e = (\<lambda>s. (Inl e, s))"

definition andThen :: "'a action \<Rightarrow> ('a \<Rightarrow> 'b action) \<Rightarrow> 'b action" where
  "andThen m f = (\<lambda>s. case m s of (Inl e, s') \<Rightarrow> (Inl e, s') | (Inr x, s') \<Rightarrow> f x s')"

definition emit :: "event \<Rightarrow> unit action" where
  "emit ev = (\<lambda>s. (Inr (), s\<lparr>events := events s @ [ev]\<rparr>))"

definition logger :: "level \<Rightarrow> string \<Rightarrow> unit action" where
  "logger lvl msg = emit (Log lvl msg)"

definition tryCatch :: "'a action \<Rightarrow> (thrown \<Rightarrow> 'a action) \<Rightarrow> 'a action" where
  "tryCatch m handler = (\<lambda>s. case m s of (Inl e, s') \<Rightarrow> handler e s' | (Inr x, s') \<Rightarrow> (Inr x, s'))"

text \<open>
  The outcome of a call of a collaborator, once the call has been recorded: the value
  it returns, or what it throws (for an awaited call, the rejection of its promise).
\<close>

definition outcome :: "thrown + 'a \<Rightarrow> 'a action" where
  "outcome r = (case r of Inr x \<Rightarrow> ret x | Inl e \<Rightarrow> throw e)"

text \<open>
  \<^verbatim>\<open>try { m } finally { fin }\<close>: the finaliser runs on every exit of \<open>m\<close>; the outcome is
  that of \<open>m\<close> unless the finaliser itself throws.
\<close>

definition tryFinally :: "'a action \<Rightarrow> unit action \<Rightarrow> 'a action" where
  "tryFinally m fin =
     (\<lambda>s. case m s of (r, s') \<Rightarrow>
        (case fin s' of (Inl e, s'') \<Rightarrow> (Inl e, s'') | (Inr u, s'') \<Rightarrow> (r, s'')))"

text \<open>The three operations on the registry: \<^verbatim>\<open>has\<close>, \<^verbatim>\<open>add\<close>, \<^verbatim>\<open>delete\<close>.\<close>

definition hasRunning :: "string \<Rightarrow> bool action" where
  "hasRunning k = (\<lambda>s. (Inr (k \<in> runningExecutions s), s))"

definition addRunning :: "string \<Rightarrow> unit action" where
  "addRunning k = (\<lambda>s. (Inr (), s\<lparr>runningExecutions := insert k (runningExecutions s)\<rparr>))"

definition deleteRunning :: "string \<Rightarrow> unit action" where
  "deleteRunning k = (\<lambda>s. (Inr (), s\<lparr>runningExecutions := runningExecutions s - {k}\<rparr>))"

text \<open>
  A sequential loop with an accumulator: the \<^verbatim>\<open>for ... of\<close> loops and the chained
  asynchronous \<^verbatim>\<open>reduce\<close> calls (each callback first awaits the accumulator of the one
  before it, so the bodies run one after the other and the first rejection ends the
  chain).
\<close>

fun foldM :: "('b \<Rightarrow> 'a \<Rightarrow> 'b action) \<Rightarrow> 'a list \<Rightarrow> 'b \<Rightarrow> 'b action" where
  "foldM f [] acc s = (Inr acc, s)"
| "foldM f (x # xs) acc s =
     (case f acc x s of (Inl e, s') \<Rightarrow> (Inl e, s') | (Inr acc', s') \<Rightarrow> foldM f xs acc' s')"

section \<open>The orchestration: \<^verbatim>\<open>executeWorkflow\<close> (lines 48-310)\<close>

definition tag :: "string \<Rightarrow> string" where
  "tag requestId = ''['' @ requestId @ ''] ''"

text \<open>The execution key of line 54.\<close>

definition executionKeyOf :: "string \<Rightarrow> string \<Rightarrow> string" where
  "executionKeyOf workflowId requestId = workflowId @ '':'' @ requestId"

subsection \<open>Loading the definition and the stored variables (lines 91-137)\<close>

definition loadDefinition :: "env \<Rightarrow> workflow \<Rightarrow> string \<Rightarrow> workflow_state action" where
  "loadDefinition env workflow requestId =
     (let workflowId = workflow_id workflow in
      andThen (logger DEBUG (tag requestId @ ''Loading workflow '' @ workflowId
                 @ '' from normalized tables'')) (\<lambda>_.
      andThen (emit (LoadWorkflow workflowId)) (\<lambda>_.
      case loadWorkflowFromNormalizedTables env workflowId of
        Some normalizedData \<Rightarrow>
          andThen (logger INFO (tag requestId
                     @ ''Using normalized tables for workflow execution: '' @ workflowId)) (\<lambda>_.
          ret normalizedData)
      | None \<Rightarrow>
          andThen (logger WARN (tag requestId
                     @ ''No normalized data found, falling back to deployed state for workflow: ''
                     @ workflowId)) (\<lambda>_.
          case deployedState workflow of
            None \<Rightarrow> throw (Error (''Workflow '' @ workflowId
                       @ '' has no deployed state and no normalized data available''))
          | Some deployed \<Rightarrow> ret deployed))))"

text \<open>
  \<^verbatim>\<open>EnvVarsSchema.parse\<close> with \<^verbatim>\<open>EnvVarsSchema = z.record(z.string())\<close> (line 31): the
  value must be an object all of whose property values are strings; otherwise a
  ZodError is thrown.
\<close>

fun stringEntries :: "(string \<times> jsval) list \<Rightarrow> (string \<times> string) list option" where
  "stringEntries [] = Some []"
| "stringEntries ((k, Str v) # kvs) = map_option (\<lambda>rest. (k, v) # rest) (stringEntries kvs)"
| "stringEntries ((k, other) # kvs) = None"

definition EnvVarsSchema_parse :: "env \<Rightarrow> jsval \<Rightarrow> (string \<times> string) list action" where
  "EnvVarsSchema_parse env v =
     (case v of
        Obj kvs \<Rightarrow> (case stringEntries kvs of
                      Some vars \<Rightarrow> ret vars
                    | None \<Rightarrow> throw (Error (zodMessage env)))
      | other \<Rightarrow> throw (Error (zodMessage env)))"

definition loadVariables :: "env \<Rightarrow> workflow \<Rightarrow> string \<Rightarrow> (string \<times> string) list action" where
  "loadVariables env workflow requestId =
     andThen (emit (SelectEnvironment (userId workflow))) (\<lambda>_.
     case selectEnvironment env (userId workflow) of
       None \<Rightarrow>
         andThen (logger DEBUG (tag requestId @ ''No environment record found for user ''
                    @ userId workflow @ ''. Proceeding with empty variables.'')) (\<lambda>_.
         EnvVarsSchema_parse env (Obj []))
     | Some stored \<Rightarrow>
         EnvVarsSchema_parse env
           (if stored = Undefined \<or> stored = Null then Obj [] else stored))"

subsection \<open>Template substitution in the block states (lines 140-184)\<close>

text \<open>
  One turn of the loop of lines 153-172: the match is looked up by its name, decrypted,
  and \<^verbatim>\<open>value.replace(match, decrypted)\<close> is applied to the value as it stands after the
  matches before it. The lookup \<^verbatim>\<open>variables[varName]\<close> is a lookup among the stored
  variables (the names every object inherits, such as \<^verbatim>\<open>constructor\<close>, are left out);
  an empty ciphertext counts as missing, as \<^verbatim>\<open>!encryptedValue\<close> does.
\<close>

definition resolveMatch ::
  "env \<Rightarrow> string \<Rightarrow> (string \<times> string) list \<Rightarrow> string \<Rightarrow> string \<Rightarrow> string action" where
  "resolveMatch env requestId vars val match =
     (let varName = slice_2_neg2 match;
          notFound = throw (Error (''Environment variable '' @ quoted varName
                       @ '' was not found''))
      in case map_of vars varName of
           None \<Rightarrow> notFound
         | Some encryptedValue \<Rightarrow>
             if encryptedValue = [] then notFound
             else
               andThen (emit (DecryptSecret encryptedValue)) (\<lambda>_.
               case decryptSecret env encryptedValue of
                 Inr decrypted \<Rightarrow> ret (str_replace val match decrypted)
               | Inl msg \<Rightarrow>
                   andThen (logger ERROR (tag requestId
                              @ ''Error decrypting environment variable '' @ quoted varName)) (\<lambda>_.
                   throw (Error (''Failed to decrypt environment variable '' @ quoted varName
                            @ '': '' @ msg)))))"

definition resolveValue ::
  "env \<Rightarrow> string \<Rightarrow> (string \<times> string) list \<Rightarrow> jsval \<Rightarrow> jsval action" where
  "resolveValue env requestId vars v =
     (case v of
        Str s \<Rightarrow>
          if str_includes s ''{{'' \<and> str_includes s ''}}'' then
            (case matchAll s of
               [] \<Rightarrow> ret v
             | m # ms \<Rightarrow>
                 andThen (foldM (resolveMatch env requestId vars) (m # ms) s) (\<lambda>s'.
                 ret (Str s')))
          else ret v
      | other \<Rightarrow> ret v)"

definition resolveSubBlocks ::
  "env \<Rightarrow> string \<Rightarrow> (string \<times> string) list \<Rightarrow> block \<Rightarrow> (string \<times> jsval) list action" where
  "resolveSubBlocks env requestId vars blk =
     foldM (\<lambda>subAcc (key, v).
              andThen (resolveValue env requestId vars v) (\<lambda>v'.
              ret (AList.update key v' subAcc)))
       (subBlocks blk) []"

definition resolveBlockStates ::
  "env \<Rightarrow> string \<Rightarrow> (string \<times> string) list \<Rightarrow> (string \<times> block) list
     \<Rightarrow> (string \<times> (string \<times> jsval) list) list action" where
  "resolveBlockStates env requestId vars mergedStates =
     foldM (\<lambda>acc (blockId, blk).
              andThen (resolveSubBlocks env requestId vars blk) (\<lambda>resolved.
              ret (AList.update blockId resolved acc)))
       mergedStates []"

subsection \<open>Decrypting every stored variable (lines 186-196)\<close>

definition decryptEnvVars ::
  "env \<Rightarrow> string \<Rightarrow> (string \<times> string) list \<Rightarrow> (string \<times> string) list action" where
  "decryptEnvVars env requestId vars =
     foldM (\<lambda>decryptedEnvVars (key, encryptedValue).
              andThen (emit (DecryptSecret encryptedValue)) (\<lambda>_.
              case decryptSecret env encryptedValue of
                Inr decrypted \<Rightarrow> ret (AList.update key decrypted decryptedEnvVars)
              | Inl msg \<Rightarrow>
                  andThen (logger ERROR (tag requestId
                             @ ''Failed to decrypt environment variable '' @ quoted key)) (\<lambda>_.
                  throw (Error (''Failed to decrypt environment variable '' @ quoted key
                           @ '': '' @ msg)))))
       vars []"

subsection \<open>Parsing the response formats (lines 198-222)\<close>

definition processBlockStates ::
  "env \<Rightarrow> string \<Rightarrow> (string \<times> (string \<times> jsval) list) list
     \<Rightarrow> (string \<times> (string \<times> jsval) list) list action" where
  "processBlockStates env requestId currentBlockStates =
     foldM (\<lambda>acc (blockId, blockState).
              case map_of blockState ''responseFormat'' of
                Some (Str fmt) \<Rightarrow>
                  if fmt = [] then ret (AList.update blockId blockState acc)
                  else
                    andThen (logger DEBUG (tag requestId
                               @ ''Parsing responseFormat for block '' @ blockId)) (\<lambda>_.
                    case jsonParse env fmt of
                      Inr parsedResponseFormat \<Rightarrow>
                        ret (AList.update blockId
                               (AList.update ''responseFormat'' parsedResponseFormat blockState) acc)
                    | Inl msg \<Rightarrow>
                        andThen (logger WARN (tag requestId
                                   @ ''Failed to parse responseFormat for block '' @ blockId)) (\<lambda>_.
                        ret (AList.update blockId blockState acc)))
              | other \<Rightarrow> ret (AList.update blockId blockState acc))
       currentBlockStates []"

subsection \<open>Workflow variables (lines 224-244)\<close>

text \<open>
  The local \<^verbatim>\<open>workflowVariables\<close> starts as the empty object. Inside the \<^verbatim>\<open>try\<close> it is
  assigned first and the debug message, which calls \<^verbatim>\<open>Object.keys\<close> on it, is built
  afterwards: when \<^verbatim>\<open>JSON.parse\<close> throws, the variable keeps the empty object; when
  \<^verbatim>\<open>Object.keys\<close> throws, it keeps the value just assigned. Either way the \<^verbatim>\<open>catch\<close>
  logs and the function goes on.
\<close>

definition loadedVariables :: "string \<Rightarrow> string \<Rightarrow> jsval \<Rightarrow> jsval action" where
  "loadedVariables workflowId requestId assigned =
     (case objectKeysLength assigned of
        Some n \<Rightarrow>
          andThen (logger DEBUG (tag requestId @ ''Loaded '' @ showNat n
                     @ '' workflow variables for: '' @ workflowId)) (\<lambda>_.
          ret assigned)
      | None \<Rightarrow>
          andThen (logger ERROR (tag requestId @ ''Failed to parse workflow variables: ''
                     @ workflowId)) (\<lambda>_.
          ret assigned))"

definition normalizeWorkflowVariables :: "env \<Rightarrow> workflow \<Rightarrow> string \<Rightarrow> jsval action" where
  "normalizeWorkflowVariables env workflow requestId =
     (let workflowId = workflow_id workflow in
      if truthy (variables workflow) then
        (case variables workflow of
           Str text \<Rightarrow>
             (case jsonParse env text of
                Inr parsed \<Rightarrow> loadedVariables workflowId requestId parsed
              | Inl msg \<Rightarrow>
                  andThen (logger ERROR (tag requestId
                             @ ''Failed to parse workflow variables: '' @ workflowId)) (\<lambda>_.
                  ret (Obj [])))
         | other \<Rightarrow> loadedVariables workflowId requestId other)
      else
        andThen (logger DEBUG (tag requestId @ ''No workflow variables found for: ''
                   @ workflowId)) (\<lambda>_.
        ret (Obj [])))"

subsection \<open>Engine invocation and result handling (lines 246-301)\<close>

definition runEngine ::
  "env \<Rightarrow> workflow \<Rightarrow> string \<Rightarrow> jsval \<Rightarrow> workflow_state \<Rightarrow> (string \<times> block) list
     \<Rightarrow> (string \<times> string) list \<Rightarrow> (string \<times> (string \<times> jsval) list) list \<Rightarrow> jsval
     \<Rightarrow> (string \<times> jsval) list action" where
  "runEngine env workflow requestId processedInput loaded mergedStates decryptedEnvVars
       processedBlockStates wfVariables =
     (let workflowId = workflow_id workflow;
          args = \<lparr>serializedWorkflow =
                    serializeWorkflow env mergedStates (edges loaded) (loops loaded)
                      (parallels loaded),
                  blockStates = processedBlockStates,
                  envVars = decryptedEnvVars,
                  workflowInput = processedInput,
                  workflowVariables = wfVariables\<rparr>
      in andThen (logger DEBUG (tag requestId @ ''Serializing workflow: '' @ workflowId)) (\<lambda>_.
         andThen (emit (Execute args workflowId)) (\<lambda>_.
         case execute env args workflowId of
           Inr result \<Rightarrow> ret result
         | Inl msg \<Rightarrow> throw (Error msg))))"

text \<open>
  Line 267: \<^verbatim>\<open>'stream' in result && 'execution' in result ? result.execution : result\<close>.
\<close>

definition executionResultOf :: "(string \<times> jsval) list \<Rightarrow> jsval" where
  "executionResultOf result =
     (if ''stream'' \<in> fst ` set result \<and> ''execution'' \<in> fst ` set result
      then (case map_of result ''execution'' of Some v \<Rightarrow> v | None \<Rightarrow> Undefined)
      else Obj result)"

text \<open>
  Reading the property \<^verbatim>\<open>success\<close>: a TypeError (\<open>Inl\<close> of its message) on
  \<^verbatim>\<open>undefined\<close> and \<^verbatim>\<open>null\<close>, the own property of an object, \<^verbatim>\<open>undefined\<close> on any
  other value.
\<close>

fun readSuccess :: "jsval \<Rightarrow> string + jsval" where
  "readSuccess Undefined = Inl ''Cannot read properties of undefined (reading 'success')''"
| "readSuccess Null = Inl ''Cannot read properties of null (reading 'success')''"
| "readSuccess (Obj kvs) = Inr (case map_of kvs ''success'' of Some v \<Rightarrow> v | None \<Rightarrow> Undefined)"
| "readSuccess other = Inr Undefined"

text \<open>
  Lines 269-301. Each call is recorded and then its outcome is taken, so a failure of
  one of them is thrown from inside the \<^verbatim>\<open>try\<close> block with everything before it done.
\<close>

definition recordResult ::
  "env \<Rightarrow> workflow \<Rightarrow> string \<Rightarrow> (string \<times> jsval) list \<Rightarrow> jsval action" where
  "recordResult env workflow requestId result =
     (let workflowId = workflow_id workflow;
          executionId = uuidv4 env;
          executionResult = executionResultOf result
      in andThen (case readSuccess executionResult of
                    Inr success \<Rightarrow> ret success
                  | Inl msg \<Rightarrow> throw (Error msg)) (\<lambda>success.
         andThen (logger INFO (tag requestId @ ''Workflow execution completed: ''
                    @ workflowId)) (\<lambda>_.
         andThen (if truthy success
                  then andThen (emit (UpdateWorkflowRunCounts workflowId)) (\<lambda>_.
                       andThen (outcome (updateWorkflowRunCounts env workflowId)) (\<lambda>_.
                       andThen (emit (UpdateUserStats (userId workflow))) (\<lambda>_.
                       outcome (updateUserStats env (userId workflow)))))
                  else ret ()) (\<lambda>_.
         andThen (outcome (buildTraceSpans env executionResult))
           (\<lambda>(traceSpans, totalDuration).
         let enrichedResult = AList.update ''totalDuration'' totalDuration
                                (AList.update ''traceSpans'' traceSpans (spread executionResult))
         in andThen (emit (PersistExecutionLogs workflowId executionId enrichedResult)) (\<lambda>_.
            andThen (outcome (persistExecutionLogs env workflowId executionId
                                enrichedResult)) (\<lambda>_.
            ret executionResult)))))))"

subsection \<open>The body of the \<^verbatim>\<open>try\<close> block and the whole function\<close>

text \<open>Lines 88-89: the first statements of the \<^verbatim>\<open>try\<close> block insert the key.\<close>

definition reserve :: "workflow \<Rightarrow> string \<Rightarrow> unit action" where
  "reserve workflow requestId =
     andThen (addRunning (executionKeyOf (workflow_id workflow) requestId)) (\<lambda>_.
     logger INFO (tag requestId @ ''Starting workflow execution: '' @ workflow_id workflow))"

text \<open>Lines 88-184: reservation, definition, stored variables, template substitution.\<close>

definition resolvePhase ::
  "env \<Rightarrow> workflow \<Rightarrow> string
     \<Rightarrow> (workflow_state \<times> (string \<times> block) list \<times> (string \<times> string) list
          \<times> (string \<times> (string \<times> jsval) list) list) action" where
  "resolvePhase env workflow requestId =
     andThen (reserve workflow requestId) (\<lambda>_.
     andThen (loadDefinition env workflow requestId) (\<lambda>loaded.
     andThen (loadVariables env workflow requestId) (\<lambda>vars.
     andThen (resolveBlockStates env requestId vars
                (mergeSubblockState env (blocks loaded))) (\<lambda>currentBlockStates.
     ret (loaded, mergeSubblockState env (blocks loaded), vars, currentBlockStates)))))"

text \<open>Lines 88-222: everything before the workflow variables are looked at.\<close>

definition preparePhase ::
  "env \<Rightarrow> workflow \<Rightarrow> string
     \<Rightarrow> (workflow_state \<times> (string \<times> block) list \<times> (string \<times> string) list
          \<times> (string \<times> (string \<times> jsval) list) list) action" where
  "preparePhase env workflow requestId =
     andThen (resolvePhase env workflow requestId)
       (\<lambda>(loaded, mergedStates, vars, currentBlockStates).
     andThen (decryptEnvVars env requestId vars) (\<lambda>decryptedEnvVars.
     andThen (processBlockStates env requestId currentBlockStates) (\<lambda>processedBlockStates.
     ret (loaded, mergedStates, decryptedEnvVars, processedBlockStates))))"

definition tryBody :: "env \<Rightarrow> workflow \<Rightarrow> string \<Rightarrow> jsval \<Rightarrow> jsval action" where
  "tryBody env workflow requestId processedInput =
     andThen (preparePhase env workflow requestId)
       (\<lambda>(loaded, mergedStates, decryptedEnvVars, processedBlockStates).
     andThen (normalizeWorkflowVariables env workflow requestId) (\<lambda>wfVariables.
     andThen (runEngine env workflow requestId processedInput loaded mergedStates
                decryptedEnvVars processedBlockStates wfVariables) (\<lambda>result.
     recordResult env workflow requestId result)))"

text \<open>
  The \<^verbatim>\<open>catch\<close> block of lines 302-306. The report to the sink is awaited before
  \<^verbatim>\<open>throw error\<close>: when the report itself fails, its error leaves the block and line 306
  is not reached.
\<close>

definition catchBlock :: "env \<Rightarrow> workflow \<Rightarrow> string \<Rightarrow> thrown \<Rightarrow> jsval action" where
  "catchBlock env workflow requestId error =
     andThen (logger ERROR (tag requestId @ ''Workflow execution failed: ''
                @ workflow_id workflow)) (\<lambda>_.
     andThen (emit (PersistExecutionError (workflow_id workflow) (uuidv4 env) error)) (\<lambda>_.
     andThen (outcome (persistExecutionError env (workflow_id workflow) (uuidv4 env) error)) (\<lambda>_.
     throw error)))"

text \<open>
  Lines 56-63: the duplicate check and the call of the usage lookup, the first
  \<^verbatim>\<open>await\<close> of the function.
\<close>

definition beforeUsage :: "workflow \<Rightarrow> string \<Rightarrow> unit action" where
  "beforeUsage workflow requestId =
     (let executionKey = executionKeyOf (workflow_id workflow) requestId
      in andThen (hasRunning executionKey) (\<lambda>running.
         if running then
           andThen (logger WARN (tag requestId @ ''Execution is already running: ''
                      @ executionKey)) (\<lambda>_.
           throw (Error ''Execution is already running''))
         else emit (CheckUsage (userId workflow))))"

text \<open>Lines 64-85: the usage gate and the two messages before the \<^verbatim>\<open>try\<close> statement.\<close>

definition afterUsage :: "env \<Rightarrow> workflow \<Rightarrow> string \<Rightarrow> unit action" where
  "afterUsage env workflow requestId =
     (let usageCheck = checkServerSideUsageLimits env (userId workflow) in
      if isExceeded usageCheck then
        andThen (logger WARN (tag requestId @ ''User '' @ userId workflow
                   @ '' has exceeded usage limits'')) (\<lambda>_.
        throw (new_UsageLimitError
                 (case usage_message usageCheck of
                    Some m \<Rightarrow> if m \<noteq> [] then m
                              else ''Usage limit exceeded. Please upgrade your plan to continue.''
                  | None \<Rightarrow> ''Usage limit exceeded. Please upgrade your plan to continue.'')))
      else
        andThen (logger INFO (tag requestId @ ''Executing workflow with input:'')) (\<lambda>_.
        logger INFO (tag requestId @ ''Using input directly for workflow:'')))"

text \<open>
  Lines 56-85 together. What is thrown here is thrown outside the \<^verbatim>\<open>try\<close> statement.
\<close>

definition admissionChecks :: "env \<Rightarrow> workflow \<Rightarrow> string \<Rightarrow> unit action" where
  "admissionChecks env workflow requestId =
     andThen (beforeUsage workflow requestId) (\<lambda>_. afterUsage env workflow requestId)"

definition executeWorkflow :: "env \<Rightarrow> workflow \<Rightarrow> string \<Rightarrow> jsval \<Rightarrow> jsval action" where
  "executeWorkflow env workflow requestId input =
     andThen (admissionChecks env workflow requestId) (\<lambda>_.
     tryFinally
       (tryCatch (tryBody env workflow requestId input)
          (catchBlock env workflow requestId))
       (deleteRunning (executionKeyOf (workflow_id workflow) requestId)))"

section \<open>The HTTP handlers (lines 312-407)\<close>

text \<open>The shared tail of both handlers: lines 326-332 and 386-392.\<close>

definition respond :: "env \<Rightarrow> jsval \<Rightarrow> response action" where
  "respond env result =
     (if workflowHasResponseBlock env result then ret (HttpResponseFromBlock result)
      else ret (SuccessResponse result))"

text \<open>The shared \<^verbatim>\<open>catch\<close> block: lines 333-346 and 393-406.\<close>

definition handlerCatch :: "string \<Rightarrow> string \<Rightarrow> thrown \<Rightarrow> response action" where
  "handlerCatch requestId wfId error =
     andThen (logger ERROR (tag requestId @ ''Error executing workflow: '' @ wfId)) (\<lambda>_.
     case error of
       UsageLimitError m statusCode \<Rightarrow>
         ret (ErrorResponse m statusCode (Some ''USAGE_LIMIT_EXCEEDED''))
     | Error m \<Rightarrow>
         ret (ErrorResponse (if m \<noteq> [] then m else ''Failed to execute workflow'') 500
                (Some ''EXECUTION_ERROR'')))"

definition GET :: "env \<Rightarrow> request \<Rightarrow> string \<Rightarrow> response action" where
  "GET env req wfId =
     (let requestId = take 8 (randomUUID env) in
      tryCatch
        (andThen (logger DEBUG (tag requestId @ ''GET execution request for workflow: ''
                   @ wfId)) (\<lambda>_.
         andThen (emit (ValidateAccess wfId)) (\<lambda>_.
         case validateWorkflowAccess env req wfId of
           ValidationError m status \<Rightarrow>
             andThen (logger WARN (tag requestId @ ''Workflow access validation failed: ''
                        @ m)) (\<lambda>_.
             ret (ErrorResponse m status None))
         | ValidationOk workflow \<Rightarrow>
             andThen (executeWorkflow env workflow requestId Undefined) (respond env))))
        (handlerCatch requestId wfId))"

text \<open>
  \<^verbatim>\<open>bodyText?.trim()\<close> is truthy when the text has a code point that \<^verbatim>\<open>trim\<close> does not
  remove. A string is the list of the bytes of its UTF-8 encoding; what \<^verbatim>\<open>trim\<close> removes
  are the white space and line terminator code points of ECMAScript: U+0009 to U+000D,
  U+0020, U+00A0, U+1680, U+2000 to U+200A, U+2028, U+2029, U+202F, U+205F, U+3000 and
  U+FEFF.
\<close>

definition whiteSpaceCodePoints :: "string list" where
  "whiteSpaceCodePoints =
     [[CHR 0x09], [CHR 0x0A], [CHR 0x0B], [CHR 0x0C], [CHR 0x0D], [CHR 0x20],
      [CHR 0xC2, CHR 0xA0],
      [CHR 0xE1, CHR 0x9A, CHR 0x80],
      [CHR 0xE2, CHR 0x80, CHR 0x80], [CHR 0xE2, CHR 0x80, CHR 0x81],
      [CHR 0xE2, CHR 0x80, CHR 0x82], [CHR 0xE2, CHR 0x80, CHR 0x83],
      [CHR 0xE2, CHR 0x80, CHR 0x84], [CHR 0xE2, CHR 0x80, CHR 0x85],
      [CHR 0xE2, CHR 0x80, CHR 0x86], [CHR 0xE2, CHR 0x80, CHR 0x87],
      [CHR 0xE2, CHR 0x80, CHR 0x88], [CHR 0xE2, CHR 0x80, CHR 0x89],
      [CHR 0xE2, CHR 0x80, CHR 0x8A],
      [CHR 0xE2, CHR 0x80, CHR 0xA8], [CHR 0xE2, CHR 0x80, CHR 0xA9],
      [CHR 0xE2, CHR 0x80, CHR 0xAF],
      [CHR 0xE2, CHR 0x81, CHR 0x9F],
      [CHR 0xE3, CHR 0x80, CHR 0x80],
      [CHR 0xEF, CHR 0xBB, CHR 0xBF]]"

text \<open>The number of bytes of the white space code point the text starts with, or 0.\<close>

definition leadingWhiteSpace :: "string \<Rightarrow> nat" where
  "leadingWhiteSpace text =
     (case filter (\<lambda>w. take (length w) text = w) whiteSpaceCodePoints of
        [] \<Rightarrow> 0
      | w # ws \<Rightarrow> length w)"

function isBlank :: "string \<Rightarrow> bool" where
  "isBlank text =
     (if text = [] then True
      else if leadingWhiteSpace text = 0 then False
      else isBlank (drop (leadingWhiteSpace text) text))"
  by pat_completeness auto
termination
  by (relation "measure length") auto

declare isBlank.simps [simp del]

text \<open>Lines 364-375: the parsed body, or \<open>None\<close> for the early 400 response.\<close>

definition parseBody :: "env \<Rightarrow> string \<Rightarrow> string \<Rightarrow> jsval option action" where
  "parseBody env requestId text =
     (if \<not> isBlank text then
        (case jsonParse env text of
           Inr body \<Rightarrow>
             andThen (logger INFO (tag requestId @ ''Parsed request body:'')) (\<lambda>_.
             ret (Some body))
         | Inl msg \<Rightarrow>
             andThen (logger ERROR (tag requestId @ ''Failed to parse request body:'')) (\<lambda>_.
             ret None))
      else
        andThen (logger INFO (tag requestId @ ''No request body provided'')) (\<lambda>_.
        ret (Some (Obj []))))"

definition POST :: "env \<Rightarrow> request \<Rightarrow> string \<Rightarrow> response action" where
  "POST env req wfId =
     (let requestId = take 8 (randomUUID env) in
      tryCatch
        (andThen (logger DEBUG (tag requestId @ ''POST execution request for workflow: ''
                   @ wfId)) (\<lambda>_.
         andThen (emit (ValidateAccess wfId)) (\<lambda>_.
         case validateWorkflowAccess env req wfId of
           ValidationError m status \<Rightarrow>
             andThen (logger WARN (tag requestId @ ''Workflow access validation failed: ''
                        @ m)) (\<lambda>_.
             ret (ErrorResponse m status None))
         | ValidationOk workflow \<Rightarrow>
             andThen (logger INFO (tag requestId @ ''Raw request body:'')) (\<lambda>_.
             andThen (parseBody env requestId (bodyText req)) (\<lambda>parsed.
             case parsed of
               None \<Rightarrow> ret (ErrorResponse ''Invalid JSON in request body'' 400
                             (Some ''INVALID_JSON''))
             | Some body \<Rightarrow>
                 (case objectKeysLength body of
                    None \<Rightarrow> throw (Error ''Cannot convert undefined or null to object'')
                  | Some n \<Rightarrow>
                      andThen (logger INFO (tag requestId @ ''Input passed to workflow:'')) (\<lambda>_.
                      andThen (executeWorkflow env workflow requestId
                                 (if 0 < n then body else Obj [])) (respond env))))))))
        (handlerCatch requestId wfId))"

section \<open>Two calls in flight: the admission steps between suspension points\<close>

text \<open>
  JavaScript runs an asynchronous function without interruption up to its next
  \<^verbatim>\<open>await\<close>, where another call may run. Up to the reservation \<^verbatim>\<open>executeWorkflow\<close>
  has two such uninterrupted stretches: lines 49-63 (the duplicate check, ending at
  \<^verbatim>\<open>await checkServerSideUsageLimits\<close>), and lines 64-89 (the usage gate, the messages
  and \<^verbatim>\<open>runningExecutions.add\<close>; the next \<^verbatim>\<open>await\<close> is on line 93).
\<close>

datatype admission = NotStarted | AwaitingUsage | Reserved | Rejected thrown

definition stepCall ::
  "env \<Rightarrow> workflow \<times> string \<Rightarrow> admission \<Rightarrow> state \<Rightarrow> admission \<times> state" where
  "stepCall env call a s =
     (case a of
        NotStarted \<Rightarrow>
          (case beforeUsage (fst call) (snd call) s of
             (Inl e, s') \<Rightarrow> (Rejected e, s')
           | (Inr u, s') \<Rightarrow> (AwaitingUsage, s'))
      | AwaitingUsage \<Rightarrow>
          (case andThen (afterUsage env (fst call) (snd call))
                  (\<lambda>_. reserve (fst call) (snd call)) s of
             (Inl e, s') \<Rightarrow> (Rejected e, s')
           | (Inr u, s') \<Rightarrow> (Reserved, s'))
      | Reserved \<Rightarrow> (Reserved, s)
      | Rejected e \<Rightarrow> (Rejected e, s))"

datatype turn = First | Second

text \<open>Two calls sharing the registry, moved one stretch at a time by a schedule.\<close>

fun runTurns ::
  "env \<Rightarrow> workflow \<times> string \<Rightarrow> workflow \<times> string \<Rightarrow> turn list
     \<Rightarrow> admission \<times> admission \<times> state \<Rightarrow> admission \<times> admission \<times> state" where
  "runTurns env c1 c2 [] cfg = cfg"
| "runTurns env c1 c2 (First # ts) (a1, a2, s) =
     (case stepCall env c1 a1 s of (a1', s') \<Rightarrow> runTurns env c1 c2 ts (a1', a2, s'))"
| "runTurns env c1 c2 (Second # ts) (a1, a2, s) =
     (case stepCall env c2 a2 s of (a2', s') \<Rightarrow> runTurns env c1 c2 ts (a1, a2', s'))"

section \<open>The substitution as the specification words it\<close>

text \<open>
  Section 4.3 of the specification: every non-overlapping placeholder of the value,
  from the left, is replaced by the plain text its name has in a resolved variable
  mapping; the text put in is not looked at again; a name the mapping lacks fails the
  whole resolution with that name (\<open>Inl\<close>). This definition follows the specification's
  words; \<open>resolveValue\<close> above is the code.
\<close>

function referenceSubstitute :: "(string \<times> string) list \<Rightarrow> string \<Rightarrow> string + string" where
  "referenceSubstitute resolved [] = Inr []"
| "referenceSubstitute resolved (c # cs) =
     (let name = takeWhile (\<lambda>x. x \<noteq> CHR ''}'') (drop 1 cs);
          rest = dropWhile (\<lambda>x. x \<noteq> CHR ''}'') (drop 1 cs)
      in if take 2 (c # cs) = ''{{'' \<and> name \<noteq> [] \<and> take 2 rest = ''}}''
         then (case map_of resolved name of
                 None \<Rightarrow> Inl name
               | Some plain \<Rightarrow>
                   (case referenceSubstitute resolved (drop 2 rest) of
                      Inl missing \<Rightarrow> Inl missing
                    | Inr out \<Rightarrow> Inr (plain @ out)))
         else (case referenceSubstitute resolved cs of
                 Inl missing \<Rightarrow> Inl missing
               | Inr out \<Rightarrow> Inr (c # out)))"
  by pat_completeness auto
termination
proof (relation "measure (\<lambda>(resolved, s). length s)")
  fix resolved :: "(string \<times> string) list" and c :: char and cs name rest
  assume "rest = dropWhile (\<lambda>x. x \<noteq> CHR ''}'') (drop 1 cs)"
  moreover have "length (dropWhile (\<lambda>x. x \<noteq> CHR ''}'') (drop 1 cs)) \<le> length cs"
    by (rule le_trans [OF length_dropWhile_le]) simp
  ultimately show "((resolved, drop 2 rest), (resolved, c # cs))
      \<in> measure (\<lambda>(resolved, s). length s)"
    by simp
qed simp_all

section \<open>Vocabulary of the theorems\<close>

text \<open>Kinds of effects.\<close>

fun isPersistence :: "event \<Rightarrow> bool" where
  "isPersistence (PersistExecutionLogs w e r) = True"
| "isPersistence (PersistExecutionError w e err) = True"
| "isPersistence other = False"

fun isBookkeeping :: "event \<Rightarrow> bool" where
  "isBookkeeping (UpdateWorkflowRunCounts w) = True"
| "isBookkeeping (UpdateUserStats u) = True"
| "isBookkeeping other = False"

fun isErrorLog :: "event \<Rightarrow> bool" where
  "isErrorLog (Log lvl msg) = (lvl = ERROR)"
| "isErrorLog other = False"

fun isDecrypt :: "event \<Rightarrow> bool" where
  "isDecrypt (DecryptSecret c) = True"
| "isDecrypt other = False"

fun isUsageLookup :: "event \<Rightarrow> bool" where
  "isUsageLookup (CheckUsage u) = True"
| "isUsageLookup other = False"

fun isExecute :: "event \<Rightarrow> bool" where
  "isExecute (Execute args w) = True"
| "isExecute other = False"

text \<open>
  The work that follows admission: loading the definition, fetching the stored
  variables, decrypting, invoking the engine.
\<close>

fun isExecutionWork :: "event \<Rightarrow> bool" where
  "isExecutionWork (LoadWorkflow w) = True"
| "isExecutionWork (SelectEnvironment u) = True"
| "isExecutionWork (DecryptSecret c) = True"
| "isExecutionWork (Execute args w) = True"
| "isExecutionWork other = False"

text \<open>
  The engine result has a true \<^verbatim>\<open>success\<close>: the test of line 275, on the value line 267
  selects. An engine invocation recorded in the trace succeeded when the engine
  returned such a result for it.
\<close>

definition resultSucceeded :: "(string \<times> jsval) list \<Rightarrow> bool" where
  "resultSucceeded result =
     (case readSuccess (executionResultOf result) of
        Inr success \<Rightarrow> truthy success
      | Inl msg \<Rightarrow> False)"

fun succeededWith :: "env \<Rightarrow> event \<Rightarrow> bool" where
  "succeededWith env (Execute args w) =
     (case execute env args w of Inr result \<Rightarrow> resultSucceeded result | Inl msg \<Rightarrow> False)"
| "succeededWith env other = False"

text \<open>
  A POST body that lets the handler reach \<^verbatim>\<open>executeWorkflow\<close>: blank, or text that parses
  to a value \<^verbatim>\<open>Object.keys\<close> accepts (lines 364-379).
\<close>

definition bodyAccepted :: "env \<Rightarrow> request \<Rightarrow> bool" where
  "bodyAccepted env req =
     (if \<not> isBlank (bodyText req)
      then (case jsonParse env (bodyText req) of
              Inr body \<Rightarrow> objectKeysLength body \<noteq> None
            | Inl msg \<Rightarrow> False)
      else True)"

text \<open>
  Frame conditions: an action keeps an observation \<open>f\<close> of the state when running it
  never changes \<open>f\<close>; an event is quiet for \<open>f\<close> when recording it does not change \<open>f\<close>.
\<close>

definition keeps :: "(state \<Rightarrow> 'x) \<Rightarrow> 'a action \<Rightarrow> bool" where
  "keeps f m = (\<forall>s. f (snd (m s)) = f s)"

definition quiet :: "(state \<Rightarrow> 'x) \<Rightarrow> event \<Rightarrow> bool" where
  "quiet f ev = (\<forall>s. f (s\<lparr>events := events s @ [ev]\<rparr>) = f s)"

text \<open>
  Up to the engine call nothing but messages, lookups and decryptions is recorded.
\<close>

definition preparatory :: "(event \<Rightarrow> bool) \<Rightarrow> bool" where
  "preparatory P = ((\<forall>l m. \<not> P (Log l m)) \<and> (\<forall>u. \<not> P (CheckUsage u))
     \<and> (\<forall>w. \<not> P (LoadWorkflow w)) \<and> (\<forall>u. \<not> P (SelectEnvironment u))
     \<and> (\<forall>c. \<not> P (DecryptSecret c)))"

text \<open>A stored variable whose ciphertext the decryption primitive accepts.\<close>

definition decrypts :: "env \<Rightarrow> string \<times> string \<Rightarrow> bool" where
  "decrypts env kv = (\<not> isl (decryptSecret env (snd kv)))"

section \<open>Sample inputs\<close>

definition demoBlocks :: "(string \<times> block) list" where
  "demoBlocks =
     [(''b1'', \<lparr>subBlocks = [(''prompt'', Str ''{{A}} and {{B}}''), (''n'', Num 3)]\<rparr>)]"

definition demoWorkflow :: workflow where
  "demoWorkflow =
     \<lparr>workflow_id = ''wf1'', userId = ''u1'', deployedState = None, variables = Undefined\<rparr>"

definition demoEnv :: env where
  "demoEnv =
     \<lparr>uuidv4 = ''exec-1'',
      randomUUID = ''abcdef01-2345'',
      validateWorkflowAccess = (\<lambda>req wfId. ValidationOk demoWorkflow),
      checkServerSideUsageLimits =
        (\<lambda>u. \<lparr>isExceeded = False, currentUsage = 1, limit = 10, usage_message = None\<rparr>),
      loadWorkflowFromNormalizedTables =
        (\<lambda>w. Some \<lparr>blocks = demoBlocks, edges = Arr [], loops = Obj [], parallels = Obj []\<rparr>),
      mergeSubblockState = (\<lambda>b. b),
      selectEnvironment = (\<lambda>u. Some (Obj [(''A'', Str ''encA''), (''B'', Str ''encB'')])),
      zodMessage = ''Expected string'',
      decryptSecret =
        (\<lambda>c. if c = ''encA'' then Inr ''x'' else if c = ''encB'' then Inr ''y''
             else Inl ''bad key''),
      jsonParse = (\<lambda>text. Inl ''Unexpected end of JSON input''),
      serializeWorkflow = (\<lambda>m e l p. Obj []),
      execute = (\<lambda>args w. Inr [(''success'', Bool True), (''output'', Obj [])]),
      updateWorkflowRunCounts = (\<lambda>w. Inr ()),
      updateUserStats = (\<lambda>u. Inr ()),
      buildTraceSpans = (\<lambda>r. Inr (Arr [], Num 0)),
      persistExecutionLogs = (\<lambda>w x r. Inr ()),
      persistExecutionError = (\<lambda>w x e. Inr ()),
      workflowHasResponseBlock = (\<lambda>r. False)\<rparr>"

definition idle :: state where
  "idle = \<lparr>runningExecutions = {}, events = []\<rparr>"

text \<open>
  A workflow none of whose block fields has a placeholder, for an owner with two stored
  variables; and the same with a decryption primitive that rejects the second one.
\<close>

definition unreferencedEnv :: env where
  "unreferencedEnv =
     demoEnv\<lparr>loadWorkflowFromNormalizedTables :=
       (\<lambda>w. Some \<lparr>blocks = [(''b1'', \<lparr>subBlocks = [(''n'', Num 3)]\<rparr>)], edges = Arr [],
                   loops = Obj [], parallels = Obj []\<rparr>)\<rparr>"

definition badKeyEnv :: env where
  "badKeyEnv =
     unreferencedEnv\<lparr>decryptSecret :=
       (\<lambda>c. if c = ''encA'' then Inr ''x'' else Inl ''bad key'')\<rparr>"

text \<open>
  A decryption primitive whose first plain text is itself a placeholder, and one whose
  plain text has two dollar signs.
\<close>

definition nestedEnv :: env where
  "nestedEnv =
     demoEnv\<lparr>decryptSecret :=
       (\<lambda>c. if c = ''encA'' then Inr ''{{B}}'' else if c = ''encB'' then Inr ''y''
            else Inl ''bad key'')\<rparr>"

definition dollarEnv :: env where
  "dollarEnv =
     demoEnv\<lparr>decryptSecret :=
       (\<lambda>c. if c = ''encA'' then Inr ''pa$$word'' else Inl ''bad key'')\<rparr>"

text \<open>
  Stores that fail behind a successful engine run: the persistence sink rejects the
  logs, or the update of the run counter fails. And a failed decryption and an engine
  fault whose report to the sink fails as well.
\<close>

definition logsFailEnv :: env where
  "logsFailEnv = demoEnv\<lparr>persistExecutionLogs := (\<lambda>w x r. Inl (Error ''sink down''))\<rparr>"

definition countFailEnv :: env where
  "countFailEnv = demoEnv\<lparr>updateWorkflowRunCounts := (\<lambda>w. Inl (Error ''store down''))\<rparr>"

definition badKeyReportFailEnv :: env where
  "badKeyReportFailEnv =
     badKeyEnv\<lparr>persistExecutionError := (\<lambda>w x e. Inl (Error ''sink down''))\<rparr>"

definition reportFailEnv :: env where
  "reportFailEnv =
     demoEnv\<lparr>execute := (\<lambda>args w. Inl ''engine fault''),
             persistExecutionError := (\<lambda>w x e. Inl (Error ''sink down''))\<rparr>"

section \<open>How the primitives run\<close>

lemma ret_app: "ret x s = (Inr x, s)"
  by (simp add: ret_def)

lemma throw_app: "throw e s = (Inl e, s)"
  by (simp add: throw_def)

lemma andThen_app:
  "andThen m f s = (case m s of (Inl e, s') \<Rightarrow> (Inl e, s') | (Inr x, s') \<Rightarrow> f x s')"
  by (simp add: andThen_def)

lemma emit_app: "emit ev s = (Inr (), s\<lparr>events := events s @ [ev]\<rparr>)"
  by (simp add: emit_def)

lemma logger_app: "logger lvl msg s = (Inr (), s\<lparr>events := events s @ [Log lvl msg]\<rparr>)"
  by (simp add: logger_def emit_def)

lemma outcome_app: "outcome r s = (r, s)"
  by (cases r) (simp_all add: outcome_def ret_def throw_def)

lemma isBlank_Nil: "isBlank []"
  by (simp add: isBlank.simps)

lemma tryCatch_app:
  "tryCatch m handler s =
     (case m s of (Inl e, s') \<Rightarrow> handler e s' | (Inr x, s') \<Rightarrow> (Inr x, s'))"
  by (simp add: tryCatch_def)

lemma tryFinally_app:
  "tryFinally m fin s =
     (case m s of (r, s') \<Rightarrow>
        (case fin s' of (Inl e, s'') \<Rightarrow> (Inl e, s'') | (Inr u, s'') \<Rightarrow> (r, s'')))"
  by (simp add: tryFinally_def)

lemma hasRunning_app: "hasRunning k s = (Inr (k \<in> runningExecutions s), s)"
  by (simp add: hasRunning_def)

lemma addRunning_app:
  "addRunning k s = (Inr (), s\<lparr>runningExecutions := insert k (runningExecutions s)\<rparr>)"
  by (simp add: addRunning_def)

lemma deleteRunning_app:
  "deleteRunning k s = (Inr (), s\<lparr>runningExecutions := runningExecutions s - {k}\<rparr>)"
  by (simp add: deleteRunning_def)

lemmas run = ret_app throw_app andThen_app emit_app logger_app outcome_app tryCatch_app
  tryFinally_app hasRunning_app addRunning_app deleteRunning_app Let_def

lemmas phases = executeWorkflow_def admissionChecks_def beforeUsage_def afterUsage_def
  tryBody_def preparePhase_def resolvePhase_def reserve_def loadDefinition_def loadVariables_def
  EnvVarsSchema_parse_def resolveBlockStates_def resolveSubBlocks_def resolveValue_def
  resolveMatch_def decryptEnvVars_def processBlockStates_def normalizeWorkflowVariables_def
  loadedVariables_def runEngine_def recordResult_def catchBlock_def executionResultOf_def
  new_UsageLimitError_def executionKeyOf_def tag_def quoted_def slice_2_neg2_def str_replace_def

lemmas handlers = GET_def POST_def handlerCatch_def respond_def parseBody_def

lemmas demo = demoEnv_def demoWorkflow_def demoBlocks_def idle_def

section \<open>Rejections before the try statement\<close>

lemma admissionChecks_duplicate:
  assumes "executionKeyOf (workflow_id workflow) requestId \<in> runningExecutions s"
  shows "admissionChecks env workflow requestId s =
           (Inl (Error ''Execution is already running''),
            s\<lparr>events := events s @
               [Log WARN (tag requestId @ ''Execution is already running: ''
                  @ executionKeyOf (workflow_id workflow) requestId)]\<rparr>)"
  using assms by (simp add: admissionChecks_def beforeUsage_def run)

lemma executeWorkflow_rejected:
  assumes "admissionChecks env workflow requestId s = (Inl e, s')"
  shows "executeWorkflow env workflow requestId input s = (Inl e, s')"
  using assms by (simp add: executeWorkflow_def andThen_app)

section \<open>Frame lemmas\<close>

lemma keepsD: "keeps f m \<Longrightarrow> m s = (r, s') \<Longrightarrow> f s' = f s"
  by (auto simp: keeps_def dest: spec [where x = s])

lemma keeps_ret: "keeps f (ret x)"
  by (simp add: keeps_def ret_app)

lemma keeps_throw: "keeps f (throw e)"
  by (simp add: keeps_def throw_app)

lemma keeps_andThen:
  assumes "keeps f m" and "\<And>x. keeps f (g x)"
  shows "keeps f (andThen m g)"
  unfolding keeps_def
proof
  fix s
  obtain r s' where ms: "m s = (r, s')" by (cases "m s")
  have fs': "f s' = f s" using assms(1) ms by (rule keepsD)
  show "f (snd (andThen m g s)) = f s"
  proof (cases r)
    case (Inl e)
    then show ?thesis using ms fs' by (simp add: andThen_app)
  next
    case (Inr x)
    obtain r2 s2 where gs: "g x s' = (r2, s2)" by (cases "g x s'")
    have "f s2 = f s'" using assms(2) gs by (rule keepsD)
    then show ?thesis using ms fs' Inr gs by (simp add: andThen_app)
  qed
qed

lemma keeps_emit: "quiet f ev \<Longrightarrow> keeps f (emit ev)"
  by (simp add: keeps_def quiet_def emit_app)

lemma keeps_logger: "quiet f (Log lvl msg) \<Longrightarrow> keeps f (logger lvl msg)"
  by (simp add: keeps_def quiet_def logger_app)

lemma keeps_foldM:
  assumes "\<And>acc x. keeps f (g acc x)"
  shows "keeps f (foldM g xs acc)"
  unfolding keeps_def
proof
  fix s
  show "f (snd (foldM g xs acc s)) = f s"
  proof (induction xs arbitrary: acc s)
    case Nil
    then show ?case by simp
  next
    case (Cons x xs)
    obtain r s' where gs: "g acc x s = (r, s')" by (cases "g acc x s")
    have fs': "f s' = f s" using assms gs by (rule keepsD)
    show ?case
    proof (cases r)
      case (Inl e)
      then show ?thesis using gs fs' by simp
    next
      case (Inr acc')
      then show ?thesis using gs fs' Cons.IH [of acc' s'] by simp
    qed
  qed
qed

lemma keeps_outcome: "keeps f (outcome r)"
  by (simp add: keeps_def outcome_app)

lemmas keeps_intros = keeps_ret keeps_throw keeps_andThen keeps_emit keeps_logger keeps_outcome
  keeps_foldM

lemma keeps_loadDefinition:
  assumes "\<And>l m. quiet f (Log l m)" and "\<And>w. quiet f (LoadWorkflow w)"
  shows "keeps f (loadDefinition env workflow requestId)"
  unfolding loadDefinition_def Let_def
  by (auto intro!: keeps_intros assms split: option.split)

lemma keeps_EnvVarsSchema_parse: "keeps f (EnvVarsSchema_parse env v)"
  unfolding EnvVarsSchema_parse_def
  by (auto intro!: keeps_intros split: jsval.split option.split)

lemma keeps_loadVariables:
  assumes "\<And>l m. quiet f (Log l m)" and "\<And>u. quiet f (SelectEnvironment u)"
  shows "keeps f (loadVariables env workflow requestId)"
  unfolding loadVariables_def
  by (auto intro!: keeps_intros keeps_EnvVarsSchema_parse assms split: option.split)

lemma keeps_resolveMatch:
  assumes "\<And>l m. quiet f (Log l m)" and "\<And>c. quiet f (DecryptSecret c)"
  shows "keeps f (resolveMatch env requestId vars val match)"
  unfolding resolveMatch_def Let_def
  by (auto intro!: keeps_intros assms split: option.split sum.split)

lemma keeps_resolveValue:
  assumes "\<And>l m. quiet f (Log l m)" and "\<And>c. quiet f (DecryptSecret c)"
  shows "keeps f (resolveValue env requestId vars v)"
  unfolding resolveValue_def
  by (auto intro!: keeps_intros keeps_resolveMatch assms split: jsval.split list.split)

lemma keeps_resolveSubBlocks:
  assumes "\<And>l m. quiet f (Log l m)" and "\<And>c. quiet f (DecryptSecret c)"
  shows "keeps f (resolveSubBlocks env requestId vars blk)"
  unfolding resolveSubBlocks_def
  by (auto intro!: keeps_intros keeps_resolveValue assms)

lemma keeps_resolveBlockStates:
  assumes "\<And>l m. quiet f (Log l m)" and "\<And>c. quiet f (DecryptSecret c)"
  shows "keeps f (resolveBlockStates env requestId vars mergedStates)"
  unfolding resolveBlockStates_def
  by (auto intro!: keeps_intros keeps_resolveSubBlocks assms)

lemma keeps_decryptEnvVars:
  assumes "\<And>l m. quiet f (Log l m)" and "\<And>c. quiet f (DecryptSecret c)"
  shows "keeps f (decryptEnvVars env requestId vars)"
  unfolding decryptEnvVars_def
  by (auto intro!: keeps_intros assms split: sum.split)

lemma keeps_processBlockStates:
  assumes "\<And>l m. quiet f (Log l m)"
  shows "keeps f (processBlockStates env requestId current)"
  unfolding processBlockStates_def
  by (auto intro!: keeps_intros assms split: sum.split option.split jsval.split)

lemma keeps_loadedVariables:
  assumes "\<And>l m. quiet f (Log l m)"
  shows "keeps f (loadedVariables workflowId requestId assigned)"
  unfolding loadedVariables_def
  by (auto intro!: keeps_intros assms split: option.split)

lemma keeps_normalizeWorkflowVariables:
  assumes "\<And>l m. quiet f (Log l m)"
  shows "keeps f (normalizeWorkflowVariables env workflow requestId)"
  unfolding normalizeWorkflowVariables_def Let_def
  by (auto intro!: keeps_intros keeps_loadedVariables assms split: sum.split jsval.split)

lemma keeps_runEngine:
  assumes "\<And>l m. quiet f (Log l m)" and "\<And>a w. quiet f (Execute a w)"
  shows "keeps f (runEngine env workflow requestId input loaded merged decrypted processed wfVars)"
  unfolding runEngine_def Let_def
  by (auto intro!: keeps_intros assms split: sum.split)

lemma keeps_recordResult:
  assumes "\<And>l m. quiet f (Log l m)" and "\<And>w. quiet f (UpdateWorkflowRunCounts w)"
      and "\<And>u. quiet f (UpdateUserStats u)" and "\<And>w x r. quiet f (PersistExecutionLogs w x r)"
  shows "keeps f (recordResult env workflow requestId result)"
  unfolding recordResult_def Let_def
  by (auto intro!: keeps_intros assms split: sum.split prod.split)

text \<open>The part of the try block behind the reservation.\<close>

lemma keeps_afterReserve:
  assumes "\<And>l m. quiet f (Log l m)" and "\<And>w. quiet f (LoadWorkflow w)"
      and "\<And>u. quiet f (SelectEnvironment u)" and "\<And>c. quiet f (DecryptSecret c)"
  shows "keeps f
     (andThen (loadDefinition env workflow requestId) (\<lambda>loaded.
      andThen (loadVariables env workflow requestId) (\<lambda>vars.
      andThen (resolveBlockStates env requestId vars
                 (mergeSubblockState env (blocks loaded))) (\<lambda>currentBlockStates.
      ret (loaded, mergeSubblockState env (blocks loaded), vars, currentBlockStates)))))"
  by (intro keeps_andThen keeps_ret keeps_loadDefinition keeps_loadVariables
        keeps_resolveBlockStates assms)

section \<open>The registry\<close>

lemma quiet_registry: "quiet runningExecutions ev"
  by (simp add: quiet_def)

lemma registry_reserve_then:
  assumes "\<And>x. keeps runningExecutions (g x)"
  shows "runningExecutions (snd (andThen (reserve workflow requestId) g s))
           = insert (executionKeyOf (workflow_id workflow) requestId) (runningExecutions s)"
proof -
  let ?s1 = "s\<lparr>runningExecutions :=
                insert (executionKeyOf (workflow_id workflow) requestId) (runningExecutions s),
              events := events s @ [Log INFO (tag requestId @ ''Starting workflow execution: ''
                @ workflow_id workflow)]\<rparr>"
  have r: "reserve workflow requestId s = (Inr (), ?s1)"
    by (simp add: reserve_def run)
  obtain r2 s2 where g: "g () ?s1 = (r2, s2)" by (cases "g () ?s1")
  have "runningExecutions s2 = runningExecutions ?s1"
    using assms g by (rule keepsD)
  then show ?thesis using r g by (simp add: andThen_app)
qed

lemma registry_resolvePhase:
  "runningExecutions (snd (resolvePhase env workflow requestId s))
     = insert (executionKeyOf (workflow_id workflow) requestId) (runningExecutions s)"
  unfolding resolvePhase_def
  by (rule registry_reserve_then) (rule keeps_afterReserve; rule quiet_registry)

lemma registry_preparePhase:
  "runningExecutions (snd (preparePhase env workflow requestId s))
     = insert (executionKeyOf (workflow_id workflow) requestId) (runningExecutions s)"
proof -
  obtain r s1 where rp: "resolvePhase env workflow requestId s = (r, s1)"
    by (cases "resolvePhase env workflow requestId s")
  have s1: "runningExecutions s1
     = insert (executionKeyOf (workflow_id workflow) requestId) (runningExecutions s)"
    using registry_resolvePhase [of env workflow requestId s] rp by simp
  show ?thesis
  proof (cases r)
    case (Inl e)
    then show ?thesis using rp s1 by (simp add: preparePhase_def andThen_app)
  next
    case (Inr p)
    obtain loaded merged vars current where p: "p = (loaded, merged, vars, current)"
      by (cases p)
    let ?rest = "andThen (decryptEnvVars env requestId vars) (\<lambda>decryptedEnvVars.
       andThen (processBlockStates env requestId current) (\<lambda>processedBlockStates.
       ret (loaded, merged, decryptedEnvVars, processedBlockStates)))"
    have "keeps runningExecutions ?rest"
      by (intro keeps_andThen keeps_ret keeps_decryptEnvVars keeps_processBlockStates
            quiet_registry)
    then have "runningExecutions (snd (?rest s1)) = runningExecutions s1"
      by (simp add: keeps_def)
    then show ?thesis using rp s1 Inr p by (simp add: preparePhase_def andThen_app)
  qed
qed

lemma registry_tryBody:
  "runningExecutions (snd (tryBody env workflow requestId input s))
     = insert (executionKeyOf (workflow_id workflow) requestId) (runningExecutions s)"
proof -
  obtain r s1 where pp: "preparePhase env workflow requestId s = (r, s1)"
    by (cases "preparePhase env workflow requestId s")
  have s1: "runningExecutions s1
     = insert (executionKeyOf (workflow_id workflow) requestId) (runningExecutions s)"
    using registry_preparePhase [of env workflow requestId s] pp by simp
  show ?thesis
  proof (cases r)
    case (Inl e)
    then show ?thesis using pp s1 by (simp add: tryBody_def andThen_app)
  next
    case (Inr p)
    obtain loaded merged decrypted processed where p: "p = (loaded, merged, decrypted, processed)"
      by (cases p)
    let ?rest = "andThen (normalizeWorkflowVariables env workflow requestId) (\<lambda>wfVariables.
       andThen (runEngine env workflow requestId input loaded merged decrypted processed
                  wfVariables) (\<lambda>result.
       recordResult env workflow requestId result))"
    have "keeps runningExecutions ?rest"
      by (intro keeps_andThen keeps_normalizeWorkflowVariables keeps_runEngine
            keeps_recordResult quiet_registry)
    then have "runningExecutions (snd (?rest s1)) = runningExecutions s1"
      by (simp add: keeps_def)
    then show ?thesis using pp s1 Inr p by (simp add: tryBody_def andThen_app)
  qed
qed

lemma registry_tryCatch:
  "runningExecutions (snd (tryCatch (tryBody env workflow requestId input)
       (catchBlock env workflow requestId) s))
     = insert (executionKeyOf (workflow_id workflow) requestId) (runningExecutions s)"
proof -
  obtain r s1 where tb: "tryBody env workflow requestId input s = (r, s1)"
    by (cases "tryBody env workflow requestId input s")
  have s1: "runningExecutions s1
     = insert (executionKeyOf (workflow_id workflow) requestId) (runningExecutions s)"
    using registry_tryBody [of env workflow requestId input s] tb by simp
  show ?thesis
  proof (cases r)
    case (Inl e)
    then show ?thesis using tb s1
      by (simp add: tryCatch_app catchBlock_def run split: sum.split)
  next
    case (Inr v)
    then show ?thesis using tb s1 by (simp add: tryCatch_app)
  qed
qed

text \<open>
  Whatever the protected action does, the \<^verbatim>\<open>finally\<close> block of lines 307-309 has
  removed the key when the statement is left.
\<close>

lemma registry_tryFinally:
  "runningExecutions (snd (tryFinally m (deleteRunning k) s))
     = runningExecutions (snd (m s)) - {k}"
  by (cases "m s") (simp add: tryFinally_app deleteRunning_app)

lemma registry_tryStatement:
  "runningExecutions (snd (tryFinally
       (tryCatch (tryBody env workflow requestId input) (catchBlock env workflow requestId))
       (deleteRunning (executionKeyOf (workflow_id workflow) requestId)) s))
     = runningExecutions s - {executionKeyOf (workflow_id workflow) requestId}"
  by (simp add: registry_tryFinally registry_tryCatch)

lemma admissionChecks_cases:
  "admissionChecks env workflow requestId s =
     (if executionKeyOf (workflow_id workflow) requestId \<in> runningExecutions s
      then (Inl (Error ''Execution is already running''),
            s\<lparr>events := events s @
               [Log WARN (tag requestId @ ''Execution is already running: ''
                  @ executionKeyOf (workflow_id workflow) requestId)]\<rparr>)
      else if isExceeded (checkServerSideUsageLimits env (userId workflow))
      then (Inl (new_UsageLimitError
                   (case usage_message (checkServerSideUsageLimits env (userId workflow)) of
                      Some m \<Rightarrow> if m \<noteq> [] then m
                                else ''Usage limit exceeded. Please upgrade your plan to continue.''
                    | None \<Rightarrow> ''Usage limit exceeded. Please upgrade your plan to continue.'')),
            s\<lparr>events := events s @
               [CheckUsage (userId workflow),
                Log WARN (tag requestId @ ''User '' @ userId workflow
                  @ '' has exceeded usage limits'')]\<rparr>)
      else (Inr (),
            s\<lparr>events := events s @
               [CheckUsage (userId workflow),
                Log INFO (tag requestId @ ''Executing workflow with input:''),
                Log INFO (tag requestId @ ''Using input directly for workflow:'')]\<rparr>))"
  by (simp add: admissionChecks_def beforeUsage_def afterUsage_def run)

section \<open>The usage gate\<close>

lemma executeWorkflow_exceeded:
  assumes "executionKeyOf (workflow_id workflow) requestId \<notin> runningExecutions s"
      and "isExceeded (checkServerSideUsageLimits env (userId workflow))"
  shows "\<exists>msg. executeWorkflow env workflow requestId input s =
           (Inl (UsageLimitError msg 402),
            s\<lparr>events := events s @
               [CheckUsage (userId workflow),
                Log WARN (tag requestId @ ''User '' @ userId workflow
                  @ '' has exceeded usage limits'')]\<rparr>)"
  using assms
  by (simp add: executeWorkflow_def admissionChecks_cases new_UsageLimitError_def andThen_app)

section \<open>Errors inside the try block\<close>

lemma executeWorkflow_try_error:
  assumes "admissionChecks env workflow requestId s = (Inr (), s0)"
      and "tryBody env workflow requestId input s0 = (Inl e, s1)"
  shows "executeWorkflow env workflow requestId input s =
           (Inl (case persistExecutionError env (workflow_id workflow) (uuidv4 env) e of
                   Inr u \<Rightarrow> e
                 | Inl sinkError \<Rightarrow> sinkError),
            s1\<lparr>events := events s1 @
                 [Log ERROR (tag requestId @ ''Workflow execution failed: ''
                    @ workflow_id workflow),
                  PersistExecutionError (workflow_id workflow) (uuidv4 env) e],
               runningExecutions := runningExecutions s1
                 - {executionKeyOf (workflow_id workflow) requestId}\<rparr>)"
  using assms by (simp add: executeWorkflow_def catchBlock_def run split: sum.split)

section \<open>The steps of the try block, one by one\<close>

lemma quiet_filter: "\<not> P ev \<Longrightarrow> quiet (\<lambda>s. filter P (events s)) ev"
  by (simp add: quiet_def)

lemma normalizeWorkflowVariables_returns:
  "\<exists>v. fst (normalizeWorkflowVariables env workflow requestId s) = Inr v"
  by (auto simp: normalizeWorkflowVariables_def loadedVariables_def run
        split: jsval.split sum.split option.split)

lemma runEngine_app:
  "runEngine env workflow requestId input loaded merged decrypted processed wfVars s =
     (case execute env
             \<lparr>serializedWorkflow = serializeWorkflow env merged (edges loaded) (loops loaded)
                                     (parallels loaded),
              blockStates = processed, envVars = decrypted, workflowInput = input,
              workflowVariables = wfVars\<rparr> (workflow_id workflow) of
        Inr result \<Rightarrow> Inr result
      | Inl msg \<Rightarrow> Inl (Error msg),
      s\<lparr>events := events s @
          [Log DEBUG (tag requestId @ ''Serializing workflow: '' @ workflow_id workflow),
           Execute \<lparr>serializedWorkflow = serializeWorkflow env merged (edges loaded)
                                           (loops loaded) (parallels loaded),
                    blockStates = processed, envVars = decrypted, workflowInput = input,
                    workflowVariables = wfVars\<rparr> (workflow_id workflow)]\<rparr>)"
  by (simp add: runEngine_def run split: sum.split)

text \<open>What the steps behind the engine's return leave in the trace.\<close>

lemma recordResult_invocations:
  "filter isExecute (events (snd (recordResult env workflow requestId result s)))
     = filter isExecute (events s)"
proof -
  have "keeps (\<lambda>s. filter isExecute (events s)) (recordResult env workflow requestId result)"
    by (intro keeps_recordResult quiet_filter) simp_all
  then show ?thesis by (simp add: keeps_def)
qed

lemma recordResult_bookkeeping:
  "filter isBookkeeping (events (snd (recordResult env workflow requestId result s)))
     = filter isBookkeeping (events s)
       @ (if resultSucceeded result
          then (case updateWorkflowRunCounts env (workflow_id workflow) of
                  Inr u \<Rightarrow> [UpdateWorkflowRunCounts (workflow_id workflow),
                            UpdateUserStats (userId workflow)]
                | Inl e \<Rightarrow> [UpdateWorkflowRunCounts (workflow_id workflow)])
          else [])"
  by (simp add: recordResult_def resultSucceeded_def run split: sum.split prod.split)

lemma recordResult_returns:
  assumes "recordResult env workflow requestId result s = (Inr v, s')"
  shows "v = executionResultOf result
       \<and> (\<exists>traceSpans totalDuration.
             buildTraceSpans env v = Inr (traceSpans, totalDuration)
           \<and> persistExecutionLogs env (workflow_id workflow) (uuidv4 env)
                 (AList.update ''totalDuration'' totalDuration
                    (AList.update ''traceSpans'' traceSpans (spread v))) = Inr ()
           \<and> filter isPersistence (events s')
               = filter isPersistence (events s)
                 @ [PersistExecutionLogs (workflow_id workflow) (uuidv4 env)
                      (AList.update ''totalDuration'' totalDuration
                         (AList.update ''traceSpans'' traceSpans (spread v)))])"
  using assms
  by (auto simp: recordResult_def run split: sum.splits prod.splits if_splits)

lemma executeWorkflow_unfold:
  "executeWorkflow env workflow requestId input s =
     (case admissionChecks env workflow requestId s of
        (Inl e, s0) \<Rightarrow> (Inl e, s0)
      | (Inr u, s0) \<Rightarrow>
          (case tryBody env workflow requestId input s0 of
             (Inl e, s1) \<Rightarrow>
               (Inl (case persistExecutionError env (workflow_id workflow) (uuidv4 env) e of
                       Inr u \<Rightarrow> e
                     | Inl sinkError \<Rightarrow> sinkError),
                s1\<lparr>events := events s1 @
                     [Log ERROR (tag requestId @ ''Workflow execution failed: ''
                        @ workflow_id workflow),
                      PersistExecutionError (workflow_id workflow) (uuidv4 env) e],
                   runningExecutions := runningExecutions s1
                     - {executionKeyOf (workflow_id workflow) requestId}\<rparr>)
           | (Inr v, s1) \<Rightarrow>
               (Inr v,
                s1\<lparr>runningExecutions := runningExecutions s1
                     - {executionKeyOf (workflow_id workflow) requestId}\<rparr>)))"
  by (simp add: executeWorkflow_def catchBlock_def run split: prod.split sum.split)

lemma keeps_reserve:
  assumes "\<And>l m. quiet (\<lambda>s. f (events s)) (Log l m)"
  shows "keeps (\<lambda>s. f (events s)) (reserve workflow requestId)"
  using assms by (simp add: keeps_def quiet_def reserve_def run)

lemma keeps_preparePhase:
  assumes "\<And>l m. quiet (\<lambda>s. f (events s)) (Log l m)"
      and "\<And>w. quiet (\<lambda>s. f (events s)) (LoadWorkflow w)"
      and "\<And>u. quiet (\<lambda>s. f (events s)) (SelectEnvironment u)"
      and "\<And>c. quiet (\<lambda>s. f (events s)) (DecryptSecret c)"
  shows "keeps (\<lambda>s. f (events s)) (preparePhase env workflow requestId)"
  unfolding preparePhase_def resolvePhase_def
  by (auto intro!: keeps_andThen keeps_ret keeps_reserve keeps_loadDefinition
        keeps_loadVariables keeps_resolveBlockStates keeps_decryptEnvVars
        keeps_processBlockStates assms split: prod.split)

lemma filter_admissionChecks:
  assumes "preparatory P" and "admissionChecks env workflow requestId s = (r, s0)"
  shows "filter P (events s0) = filter P (events s)"
  using assms by (auto simp: preparatory_def admissionChecks_cases split: if_splits)

lemma filter_preparePhase:
  assumes "preparatory P" and "preparePhase env workflow requestId s = (r, s1)"
  shows "filter P (events s1) = filter P (events s)"
proof -
  have "keeps (\<lambda>s. filter P (events s)) (preparePhase env workflow requestId)"
    using assms(1) by (intro keeps_preparePhase quiet_filter) (simp_all add: preparatory_def)
  then show ?thesis using assms(2) by (rule keepsD)
qed

lemma filter_normalizeWorkflowVariables:
  assumes "preparatory P" and "normalizeWorkflowVariables env workflow requestId s = (r, s1)"
  shows "filter P (events s1) = filter P (events s)"
proof -
  have "keeps (\<lambda>s. filter P (events s)) (normalizeWorkflowVariables env workflow requestId)"
    using assms(1)
    by (intro keeps_normalizeWorkflowVariables quiet_filter) (simp_all add: preparatory_def)
  then show ?thesis using assms(2) by (rule keepsD)
qed

lemma preparatory_kinds:
  "preparatory isExecute" "preparatory isBookkeeping" "preparatory isPersistence"
  by (simp_all add: preparatory_def)

text \<open>A call that returns has gone through every step.\<close>

lemma executeWorkflow_returns:
  assumes "executeWorkflow env workflow requestId input s = (Inr v, s')"
  obtains s0 loaded merged decrypted processed s1 wfVars s2 result sb where
    "admissionChecks env workflow requestId s = (Inr (), s0)"
    "preparePhase env workflow requestId s0 = (Inr (loaded, merged, decrypted, processed), s1)"
    "normalizeWorkflowVariables env workflow requestId s1 = (Inr wfVars, s2)"
    "execute env
       \<lparr>serializedWorkflow = serializeWorkflow env merged (edges loaded) (loops loaded)
                               (parallels loaded),
        blockStates = processed, envVars = decrypted, workflowInput = input,
        workflowVariables = wfVars\<rparr> (workflow_id workflow) = Inr result"
    "recordResult env workflow requestId result
       (s2\<lparr>events := events s2 @
          [Log DEBUG (tag requestId @ ''Serializing workflow: '' @ workflow_id workflow),
           Execute \<lparr>serializedWorkflow = serializeWorkflow env merged (edges loaded)
                                           (loops loaded) (parallels loaded),
                    blockStates = processed, envVars = decrypted, workflowInput = input,
                    workflowVariables = wfVars\<rparr> (workflow_id workflow)]\<rparr>)
       = (Inr v, sb)"
    "events s' = events sb"
proof -
  obtain r0 s0 where adm: "admissionChecks env workflow requestId s = (r0, s0)"
    by (cases "admissionChecks env workflow requestId s")
  obtain rb sb where tb: "tryBody env workflow requestId input s0 = (rb, sb)"
    by (cases "tryBody env workflow requestId input s0")
  from assms adm tb have r0: "r0 = Inr ()" and rb: "rb = Inr v"
    and s': "s' = sb\<lparr>runningExecutions := runningExecutions sb
                     - {executionKeyOf (workflow_id workflow) requestId}\<rparr>"
    by (auto simp: executeWorkflow_unfold split: sum.splits)
  obtain rp s1 where pp: "preparePhase env workflow requestId s0 = (rp, s1)"
    by (cases "preparePhase env workflow requestId s0")
  from tb rb pp obtain loaded merged decrypted processed
    where rp: "rp = Inr (loaded, merged, decrypted, processed)"
    by (cases rp) (auto simp: tryBody_def andThen_app)
  obtain rn s2 where nn: "normalizeWorkflowVariables env workflow requestId s1 = (rn, s2)"
    by (cases "normalizeWorkflowVariables env workflow requestId s1")
  from tb rb pp rp nn obtain wfVars where rn: "rn = Inr wfVars"
    by (cases rn) (auto simp: tryBody_def andThen_app)
  let ?args = "\<lparr>serializedWorkflow = serializeWorkflow env merged (edges loaded) (loops loaded)
                               (parallels loaded),
        blockStates = processed, envVars = decrypted, workflowInput = input,
        workflowVariables = wfVars\<rparr>"
  let ?s3 = "s2\<lparr>events := events s2 @
          [Log DEBUG (tag requestId @ ''Serializing workflow: '' @ workflow_id workflow),
           Execute ?args (workflow_id workflow)]\<rparr>"
  from tb rb pp rp nn rn obtain result
    where ex: "execute env ?args (workflow_id workflow) = Inr result"
      and rr: "recordResult env workflow requestId result ?s3 = (Inr v, sb)"
    by (cases "execute env ?args (workflow_id workflow)")
       (auto simp: tryBody_def andThen_app runEngine_app)
  show ?thesis
  proof (rule that)
    show "admissionChecks env workflow requestId s = (Inr (), s0)" using adm r0 by simp
    show "preparePhase env workflow requestId s0 = (Inr (loaded, merged, decrypted, processed), s1)"
      using pp rp by simp
    show "normalizeWorkflowVariables env workflow requestId s1 = (Inr wfVars, s2)"
      using nn rn by simp
    show "execute env ?args (workflow_id workflow) = Inr result" by (rule ex)
    show "recordResult env workflow requestId result ?s3 = (Inr v, sb)" by (rule rr)
    show "events s' = events sb" using s' by simp
  qed
qed

section \<open>The bookkeeping in the trace\<close>

lemma list_ex_succeededWith:
  "list_ex (succeededWith env) evs = list_ex (succeededWith env) (filter isExecute evs)"
  by (induction evs) (auto elim: succeededWith.elims)

lemma executeWorkflow_trace:
  "\<exists>invoked.
      filter isExecute (events (snd (executeWorkflow env workflow requestId input s)))
        = filter isExecute (events s) @ invoked
    \<and> filter isBookkeeping (events (snd (executeWorkflow env workflow requestId input s)))
        = filter isBookkeeping (events s)
          @ (if list_ex (succeededWith env) invoked
             then (case updateWorkflowRunCounts env (workflow_id workflow) of
                     Inr u \<Rightarrow> [UpdateWorkflowRunCounts (workflow_id workflow),
                               UpdateUserStats (userId workflow)]
                   | Inl e \<Rightarrow> [UpdateWorkflowRunCounts (workflow_id workflow)])
             else [])"
proof -
  obtain r0 s0 where adm: "admissionChecks env workflow requestId s = (r0, s0)"
    by (cases "admissionChecks env workflow requestId s")
  have f0: "filter isExecute (events s0) = filter isExecute (events s)"
    "filter isBookkeeping (events s0) = filter isBookkeeping (events s)"
    using filter_admissionChecks [OF _ adm] preparatory_kinds by simp_all
  show ?thesis
  proof (cases r0)
    case (Inl e)
    then have "executeWorkflow env workflow requestId input s = (Inl e, s0)"
      using adm by (simp add: executeWorkflow_unfold)
    then show ?thesis using f0 by (intro exI [of _ "[]"]) simp
  next
    case (Inr u)
    obtain rb sb where tb: "tryBody env workflow requestId input s0 = (rb, sb)"
      by (cases "tryBody env workflow requestId input s0")
    have fin: "filter isExecute (events (snd (executeWorkflow env workflow requestId input s)))
        = filter isExecute (events sb)"
      "filter isBookkeeping (events (snd (executeWorkflow env workflow requestId input s)))
        = filter isBookkeeping (events sb)"
      using adm Inr tb by (cases rb; simp add: executeWorkflow_unfold)+
    obtain rp s1 where pp: "preparePhase env workflow requestId s0 = (rp, s1)"
      by (cases "preparePhase env workflow requestId s0")
    have f1: "filter isExecute (events s1) = filter isExecute (events s)"
      "filter isBookkeeping (events s1) = filter isBookkeeping (events s)"
      using filter_preparePhase [OF _ pp] preparatory_kinds f0 by simp_all
    show ?thesis
    proof (cases rp)
      case (Inl e)
      then have "sb = s1"
        using pp tb by (simp add: tryBody_def andThen_app)
      then show ?thesis using fin f1 by (intro exI [of _ "[]"]) simp
    next
      case (Inr p)
      obtain loaded merged decrypted processed
        where p: "p = (loaded, merged, decrypted, processed)" by (cases p)
      obtain rn s2 where nn: "normalizeWorkflowVariables env workflow requestId s1 = (rn, s2)"
        by (cases "normalizeWorkflowVariables env workflow requestId s1")
      obtain wfVars where rn: "rn = Inr wfVars"
        using normalizeWorkflowVariables_returns [of env workflow requestId s1] nn by auto
      have f2: "filter isExecute (events s2) = filter isExecute (events s)"
        "filter isBookkeeping (events s2) = filter isBookkeeping (events s)"
        using filter_normalizeWorkflowVariables [OF _ nn] preparatory_kinds f1 by simp_all
      let ?args = "\<lparr>serializedWorkflow = serializeWorkflow env merged (edges loaded)
                       (loops loaded) (parallels loaded),
                     blockStates = processed, envVars = decrypted, workflowInput = input,
                     workflowVariables = wfVars\<rparr>"
      let ?s3 = "s2\<lparr>events := events s2 @
          [Log DEBUG (tag requestId @ ''Serializing workflow: '' @ workflow_id workflow),
           Execute ?args (workflow_id workflow)]\<rparr>"
      have f3: "filter isExecute (events ?s3)
                  = filter isExecute (events s) @ [Execute ?args (workflow_id workflow)]"
        "filter isBookkeeping (events ?s3) = filter isBookkeeping (events s)"
        using f2 by simp_all
      have "filter isExecute (events sb)
              = filter isExecute (events s) @ [Execute ?args (workflow_id workflow)]
          \<and> filter isBookkeeping (events sb)
              = filter isBookkeeping (events s)
                @ (if list_ex (succeededWith env) [Execute ?args (workflow_id workflow)]
                   then (case updateWorkflowRunCounts env (workflow_id workflow) of
                           Inr u \<Rightarrow> [UpdateWorkflowRunCounts (workflow_id workflow),
                                     UpdateUserStats (userId workflow)]
                         | Inl e \<Rightarrow> [UpdateWorkflowRunCounts (workflow_id workflow)])
                   else [])"
      proof (cases "execute env ?args (workflow_id workflow)")
        case (Inl msg)
        then have "sb = ?s3"
          using tb pp \<open>rp = Inr p\<close> p nn rn
          by (simp add: tryBody_def andThen_app runEngine_app)
        then show ?thesis using f3 Inl by simp
      next
        case (Inr result)
        then have "sb = snd (recordResult env workflow requestId result ?s3)"
          using tb pp \<open>rp = Inr p\<close> p nn rn
          by (simp add: tryBody_def andThen_app runEngine_app)
        then show ?thesis
          using f3 Inr
            recordResult_invocations [of env workflow requestId result ?s3]
            recordResult_bookkeeping [of env workflow requestId result ?s3]
          by simp
      qed
      then show ?thesis using fin by (intro exI [of _ "[Execute ?args (workflow_id workflow)]"]) simp
    qed
  qed
qed

section \<open>The engine invocation in the trace\<close>

lemma tryBody_after_prepare:
  assumes "preparePhase env workflow requestId s0 = (Inr (loaded, merged, decrypted, processed), s1)"
      and "normalizeWorkflowVariables env workflow requestId s1 = (Inr wfVars, s2)"
  shows "filter isExecute (events (snd (tryBody env workflow requestId input s0)))
           = filter isExecute (events s2)
             @ [Execute \<lparr>serializedWorkflow = serializeWorkflow env merged (edges loaded)
                                                 (loops loaded) (parallels loaded),
                          blockStates = processed, envVars = decrypted, workflowInput = input,
                          workflowVariables = wfVars\<rparr> (workflow_id workflow)]"
  using assms
  by (simp add: tryBody_def andThen_app runEngine_app recordResult_invocations split: sum.split)

lemma filter_executeWorkflow:
  assumes "admissionChecks env workflow requestId s = (Inr (), s0)"
  shows "filter isExecute (events (snd (executeWorkflow env workflow requestId input s)))
           = filter isExecute (events (snd (tryBody env workflow requestId input s0)))"
  using assms
  by (simp add: executeWorkflow_unfold split: prod.split sum.split)

section \<open>The decryption loop\<close>

lemma decryptEnvVars_all:
  assumes "list_all (decrypts env) vars"
  shows "foldM (\<lambda>decryptedEnvVars (key, encryptedValue).
              andThen (emit (DecryptSecret encryptedValue)) (\<lambda>_.
              case decryptSecret env encryptedValue of
                Inr decrypted \<Rightarrow> ret (AList.update key decrypted decryptedEnvVars)
              | Inl msg \<Rightarrow>
                  andThen (logger ERROR (tag requestId
                             @ ''Failed to decrypt environment variable '' @ quoted key)) (\<lambda>_.
                  throw (Error (''Failed to decrypt environment variable '' @ quoted key
                           @ '': '' @ msg)))))
       vars acc s
     = (Inr (fold (\<lambda>kv. AList.update (fst kv) (projr (decryptSecret env (snd kv)))) vars acc),
        s\<lparr>events := events s @ map (\<lambda>kv. DecryptSecret (snd kv)) vars\<rparr>)"
  using assms
proof (induction vars arbitrary: acc s)
  case Nil
  then show ?case by simp
next
  case (Cons kv vars)
  obtain key encrypted where kv: "kv = (key, encrypted)" by (cases kv)
  from Cons.prems kv obtain plain where d: "decryptSecret env encrypted = Inr plain"
    by (cases "decryptSecret env encrypted") (auto simp: decrypts_def)
  from Cons.prems have rest: "list_all (decrypts env) vars" by simp
  show ?case
    using kv d Cons.IH [OF rest] by (simp add: run)
qed

lemma decryptEnvVars_first_failure:
  assumes "list_all (decrypts env) front" and "decryptSecret env encrypted = Inl msg"
  shows "foldM (\<lambda>decryptedEnvVars (key, encryptedValue).
              andThen (emit (DecryptSecret encryptedValue)) (\<lambda>_.
              case decryptSecret env encryptedValue of
                Inr decrypted \<Rightarrow> ret (AList.update key decrypted decryptedEnvVars)
              | Inl msg \<Rightarrow>
                  andThen (logger ERROR (tag requestId
                             @ ''Failed to decrypt environment variable '' @ quoted key)) (\<lambda>_.
                  throw (Error (''Failed to decrypt environment variable '' @ quoted key
                           @ '': '' @ msg)))))
       (front @ (name, encrypted) # rest) acc s
     = (Inl (Error (''Failed to decrypt environment variable '' @ quoted name @ '': '' @ msg)),
        s\<lparr>events := events s @ map (\<lambda>kv. DecryptSecret (snd kv)) front
           @ [DecryptSecret encrypted,
              Log ERROR (tag requestId @ ''Failed to decrypt environment variable ''
                @ quoted name)]\<rparr>)"
  using assms(1)
proof (induction front arbitrary: acc s)
  case Nil
  then show ?case using assms(2) by (simp add: run)
next
  case (Cons kv front)
  obtain key enc where kv: "kv = (key, enc)" by (cases kv)
  from Cons.prems kv obtain plain where d: "decryptSecret env enc = Inr plain"
    by (cases "decryptSecret env enc") (auto simp: decrypts_def)
  from Cons.prems have rest: "list_all (decrypts env) front" by simp
  show ?case
    using kv d Cons.IH [OF rest] by (simp add: run)
qed

lemma foldM_returns:
  assumes "\<And>acc x s. \<exists>v. fst (g acc x s) = Inr v"
  shows "\<exists>v. fst (foldM g xs acc s) = Inr v"
proof (induction xs arbitrary: acc s)
  case Nil
  then show ?case by simp
next
  case (Cons x xs)
  obtain r s' where gs: "g acc x s = (r, s')" by (cases "g acc x s")
  then obtain acc' where "r = Inr acc'" using assms [of acc x s] by auto
  then show ?case using gs Cons.IH [of acc' s'] by simp
qed

lemma processBlockStates_returns:
  "\<exists>v. fst (processBlockStates env requestId current s) = Inr v"
  unfolding processBlockStates_def
  by (rule foldM_returns) (auto simp: run split: option.split jsval.split sum.split)

text \<open>Behind the preparation nothing is decrypted.\<close>

lemma filter_isDecrypt_executeWorkflow:
  assumes "admissionChecks env workflow requestId s = (Inr (), s0)"
      and "preparePhase env workflow requestId s0 = (r, s2)"
  shows "filter isDecrypt (events (snd (executeWorkflow env workflow requestId input s)))
           = filter isDecrypt (events s2)"
proof (cases r)
  case (Inl e)
  then have "tryBody env workflow requestId input s0 = (Inl e, s2)"
    using assms(2) by (simp add: tryBody_def andThen_app)
  then show ?thesis using assms(1) by (simp add: executeWorkflow_unfold)
next
  case (Inr p)
  obtain loaded merged decrypted processed
    where p: "p = (loaded, merged, decrypted, processed)" by (cases p)
  let ?rest = "andThen (normalizeWorkflowVariables env workflow requestId) (\<lambda>wfVariables.
     andThen (runEngine env workflow requestId input loaded merged decrypted processed
                wfVariables) (\<lambda>result.
     recordResult env workflow requestId result))"
  have "keeps (\<lambda>s. filter isDecrypt (events s)) ?rest"
    by (intro keeps_andThen keeps_normalizeWorkflowVariables keeps_runEngine
          keeps_recordResult quiet_filter) simp_all
  then have rest: "filter isDecrypt (events (snd (?rest s2))) = filter isDecrypt (events s2)"
    by (simp add: keeps_def)
  have tb: "tryBody env workflow requestId input s0 = ?rest s2"
    using assms(2) Inr p by (simp add: tryBody_def andThen_app)
  obtain rb sb where rs: "?rest s2 = (rb, sb)" by (cases "?rest s2")
  show ?thesis
    using assms(1) tb rs rest by (simp add: executeWorkflow_unfold split: sum.split)
qed

section \<open>Interleaved admission\<close>

lemmas stepdefs = stepCall_def beforeUsage_def afterUsage_def reserve_def executionKeyOf_def tag_def

text \<open>
  Whenever the key is free and the owner is within the limit, the schedule in which
  both calls make their duplicate check before either resumes from the usage lookup
  takes both calls through the reservation.
\<close>

lemma race_general:
  assumes "executionKeyOf (workflow_id workflow) requestId \<notin> runningExecutions s"
      and "\<not> isExceeded (checkServerSideUsageLimits env (userId workflow))"
  shows "\<exists>s'. runTurns env (workflow, requestId) (workflow, requestId)
           [First, Second, First, Second] (NotStarted, NotStarted, s) = (Reserved, Reserved, s')
         \<and> runningExecutions s'
             = insert (executionKeyOf (workflow_id workflow) requestId) (runningExecutions s)"
  using assms by (simp add: stepCall_def beforeUsage_def afterUsage_def reserve_def run)

section \<open>The example of the specification\<close>

text \<open>
  The example of the specification: on it the code and the specification's substitution
  agree, for the value and for the missing variable.
\<close>

lemma substitution_spec_example:
  "fst (resolveValue demoEnv ''r1'' [(''A'', ''encA''), (''B'', ''encB'')]
          (Str ''{{A}} and {{B}}'') idle) = Inr (Str ''x and y'')
   \<and> referenceSubstitute [(''A'', ''x''), (''B'', ''y'')] ''{{A}} and {{B}}'' = Inr ''x and y''
   \<and> fst (resolveValue demoEnv ''r1'' [(''A'', ''encA'')] (Str ''{{A}} and {{B}}'') idle)
       = Inl (Error (''Environment variable '' @ quoted ''B'' @ '' was not found''))
   \<and> referenceSubstitute [(''A'', ''x'')] ''{{A}} and {{B}}'' = Inl ''B''"
  by (simp add: phases run demo)

section \<open>C1: two identical requests in flight\<close>

text \<open>
  Claim C1 does not hold of the code. Two calls with the same workflow and the same
  request id, the second making its duplicate check (line 57) while the first is
  suspended at the usage lookup (line 63): both pass the check, both insert the key
  (line 88) and both go on to execute; neither is rejected. The test and the insert
  are atomic only when the first call reaches line 88 before the second reaches line
  57, as in the schedule of the second conjunct.
\<close>

theorem C1_both_calls_pass_admission:
  "runTurns demoEnv (demoWorkflow, ''r1'') (demoWorkflow, ''r1'')
     [First, Second, First, Second] (NotStarted, NotStarted, idle)
   = (Reserved, Reserved,
      \<lparr>runningExecutions = {''wf1:r1''},
       events = [CheckUsage ''u1'', CheckUsage ''u1'',
                 Log INFO ''[r1] Executing workflow with input:'',
                 Log INFO ''[r1] Using input directly for workflow:'',
                 Log INFO ''[r1] Starting workflow execution: wf1'',
                 Log INFO ''[r1] Executing workflow with input:'',
                 Log INFO ''[r1] Using input directly for workflow:'',
                 Log INFO ''[r1] Starting workflow execution: wf1'']\<rparr>)
   \<and> fst (snd (runTurns demoEnv (demoWorkflow, ''r1'') (demoWorkflow, ''r1'')
          [First, First, Second] (NotStarted, NotStarted, idle)))
     = Rejected (Error ''Execution is already running'')"
  by (simp add: stepdefs run demo)

section \<open>C2: the reservation is released on every exit\<close>

text \<open>
  Claim C2. For every call of \<^verbatim>\<open>executeWorkflow\<close> that passes the admission checks, and
  so inserts its key: the key is in the registry when the body of the \<^verbatim>\<open>try\<close> block is
  left, whichever way it is left (return or any error); it is absent when the call
  completes; and the identical request, retried at once, passes the admission checks
  again.
\<close>

theorem C2_reservation_released:
  assumes "fst (admissionChecks env workflow requestId s) = Inr ()"
  shows "executionKeyOf (workflow_id workflow) requestId
           \<in> runningExecutions (snd (tryBody env workflow requestId input
                 (snd (admissionChecks env workflow requestId s))))
       \<and> executionKeyOf (workflow_id workflow) requestId
           \<notin> runningExecutions (snd (executeWorkflow env workflow requestId input s))
       \<and> fst (admissionChecks env workflow requestId
                 (snd (executeWorkflow env workflow requestId input s))) = Inr ()"
proof -
  let ?key = "executionKeyOf (workflow_id workflow) requestId"
  obtain s0 where adm: "admissionChecks env workflow requestId s = (Inr (), s0)"
    using assms by (cases "admissionChecks env workflow requestId s") auto
  have free: "?key \<notin> runningExecutions s"
    and usage: "\<not> isExceeded (checkServerSideUsageLimits env (userId workflow))"
    using assms by (auto simp: admissionChecks_cases split: if_splits)
  have held: "?key \<in> runningExecutions (snd (tryBody env workflow requestId input s0))"
    by (simp add: registry_tryBody)
  have after: "runningExecutions (snd (executeWorkflow env workflow requestId input s))
      = runningExecutions s0 - {?key}"
    using adm registry_tryStatement [of env workflow requestId input s0]
    by (simp add: executeWorkflow_def andThen_app)
  have released: "?key \<notin> runningExecutions (snd (executeWorkflow env workflow requestId input s))"
    using after by simp
  have retry: "fst (admissionChecks env workflow requestId
                 (snd (executeWorkflow env workflow requestId input s))) = Inr ()"
    using released usage by (simp add: admissionChecks_cases)
  from held released retry adm show ?thesis by simp
qed

text \<open>C2, witness: the sample call from the idle state.\<close>

theorem C2_reservation_released_witness:
  "fst (admissionChecks demoEnv demoWorkflow ''r1'' idle) = Inr ()
   \<and> ''wf1:r1'' \<in> runningExecutions (snd (tryBody demoEnv demoWorkflow ''r1'' Undefined
                 (snd (admissionChecks demoEnv demoWorkflow ''r1'' idle))))
   \<and> ''wf1:r1'' \<notin> runningExecutions (snd (executeWorkflow demoEnv demoWorkflow ''r1'' Undefined idle))
   \<and> fst (admissionChecks demoEnv demoWorkflow ''r1''
            (snd (executeWorkflow demoEnv demoWorkflow ''r1'' Undefined idle))) = Inr ()"
proof -
  have a: "fst (admissionChecks demoEnv demoWorkflow ''r1'' idle) = Inr ()"
    by (simp add: admissionChecks_cases demo executionKeyOf_def)
  have k: "executionKeyOf (workflow_id demoWorkflow) ''r1'' = ''wf1:r1''"
    by (simp add: demo executionKeyOf_def)
  show ?thesis
    using C2_reservation_released [OF a, of Undefined] a unfolding k by simp
qed

section \<open>C3: template substitution\<close>

text \<open>
  Claim C3 does not hold of the code. Each match is put in by
  \<^verbatim>\<open>value.replace(match, decrypted)\<close> on the value as it stands: the first occurrence of
  the match's text is replaced, also when it lies inside a plain text put in before,
  and the plain text is read as a replacement template. So a plain text that holds a
  later placeholder is substituted again while the placeholder itself is left, and a
  plain text with two dollar signs loses one; the substitution the specification
  describes gives another result for both.
\<close>

theorem C3_substitution_diverges:
  "fst (resolveValue nestedEnv ''r1'' [(''A'', ''encA''), (''B'', ''encB'')]
          (Str ''{{A}} {{B}}'') idle) = Inr (Str ''y {{B}}'')
   \<and> referenceSubstitute [(''A'', ''{{B}}''), (''B'', ''y'')] ''{{A}} {{B}}'' = Inr ''{{B}} y''
   \<and> fst (resolveValue dollarEnv ''r1'' [(''A'', ''encA'')] (Str ''key={{A}}'') idle)
       = Inr (Str ''key=pa$word'')
   \<and> referenceSubstitute [(''A'', ''pa$$word'')] ''key={{A}}'' = Inr ''key=pa$$word''"
  by (simp add: phases run demo nestedEnv_def dollarEnv_def)

section \<open>C4: the usage limit\<close>

text \<open>
  Claim C4. For every request (GET, or POST with an accepted body) that gets as far as
  the usage lookup and for which the lookup reports \<^verbatim>\<open>isExceeded\<close>: the answer has status
  402 and code \<^verbatim>\<open>USAGE_LIMIT_EXCEEDED\<close>, and the request ends before any definition is
  loaded, any stored variable fetched or decrypted, or the engine invoked. For GET the
  whole trace is given.
\<close>

theorem C4_usage_limit_before_work:
  assumes "validateWorkflowAccess env req wfId = ValidationOk workflow"
      and "executionKeyOf (workflow_id workflow) (take 8 (randomUUID env)) \<notin> runningExecutions s"
      and "isExceeded (checkServerSideUsageLimits env (userId workflow))"
  shows "(\<exists>msg. GET env req wfId s =
           (Inr (ErrorResponse msg 402 (Some ''USAGE_LIMIT_EXCEEDED'')),
            s\<lparr>events := events s @
               [Log DEBUG (tag (take 8 (randomUUID env))
                  @ ''GET execution request for workflow: '' @ wfId),
                ValidateAccess wfId,
                CheckUsage (userId workflow),
                Log WARN (tag (take 8 (randomUUID env)) @ ''User '' @ userId workflow
                  @ '' has exceeded usage limits''),
                Log ERROR (tag (take 8 (randomUUID env))
                  @ ''Error executing workflow: '' @ wfId)]\<rparr>))
       \<and> (bodyAccepted env req \<longrightarrow>
            (\<exists>msg. fst (POST env req wfId s) =
               Inr (ErrorResponse msg 402 (Some ''USAGE_LIMIT_EXCEEDED'')))
          \<and> filter isExecutionWork (events (snd (POST env req wfId s)))
              = filter isExecutionWork (events s))"
proof -
  let ?rid = "take 8 (randomUUID env)"
  have ex: "\<And>input s0. runningExecutions s0 = runningExecutions s \<Longrightarrow>
      \<exists>msg. executeWorkflow env workflow ?rid input s0 =
           (Inl (UsageLimitError msg 402),
            s0\<lparr>events := events s0 @
               [CheckUsage (userId workflow),
                Log WARN (tag ?rid @ ''User '' @ userId workflow
                  @ '' has exceeded usage limits'')]\<rparr>)"
    using assms(2,3) by (intro executeWorkflow_exceeded) simp_all
  have get: "\<exists>msg. GET env req wfId s =
           (Inr (ErrorResponse msg 402 (Some ''USAGE_LIMIT_EXCEEDED'')),
            s\<lparr>events := events s @
               [Log DEBUG (tag ?rid @ ''GET execution request for workflow: '' @ wfId),
                ValidateAccess wfId,
                CheckUsage (userId workflow),
                Log WARN (tag ?rid @ ''User '' @ userId workflow
                  @ '' has exceeded usage limits''),
                Log ERROR (tag ?rid @ ''Error executing workflow: '' @ wfId)]\<rparr>)"
  proof -
    let ?s1 = "s\<lparr>events := events s @
        [Log DEBUG (tag ?rid @ ''GET execution request for workflow: '' @ wfId),
         ValidateAccess wfId]\<rparr>"
    obtain msg where "executeWorkflow env workflow ?rid Undefined ?s1 =
           (Inl (UsageLimitError msg 402),
            ?s1\<lparr>events := events ?s1 @
               [CheckUsage (userId workflow),
                Log WARN (tag ?rid @ ''User '' @ userId workflow
                  @ '' has exceeded usage limits'')]\<rparr>)"
      using ex [of ?s1 Undefined] by auto
    then show ?thesis using assms(1) by (simp add: GET_def handlerCatch_def run)
  qed
  have post: "(\<exists>msg. fst (POST env req wfId s) =
               Inr (ErrorResponse msg 402 (Some ''USAGE_LIMIT_EXCEEDED'')))
          \<and> filter isExecutionWork (events (snd (POST env req wfId s)))
              = filter isExecutionWork (events s)"
    if acc: "bodyAccepted env req"
  proof -
    let ?s1 = "s\<lparr>events := events s @
        [Log DEBUG (tag ?rid @ ''POST execution request for workflow: '' @ wfId),
         ValidateAccess wfId, Log INFO (tag ?rid @ ''Raw request body:'')]\<rparr>"
    obtain body s2 where pb: "parseBody env ?rid (bodyText req) ?s1 = (Inr (Some body), s2)"
      and keys: "objectKeysLength body \<noteq> None"
      and s2: "runningExecutions s2 = runningExecutions s"
          "filter isExecutionWork (events s2) = filter isExecutionWork (events s)"
      using acc by (auto simp: bodyAccepted_def parseBody_def run split: sum.splits if_splits)
    obtain n where n: "objectKeysLength body = Some n" using keys by auto
    let ?s3 = "s2\<lparr>events := events s2 @ [Log INFO (tag ?rid @ ''Input passed to workflow:'')]\<rparr>"
    obtain msg where "executeWorkflow env workflow ?rid (if 0 < n then body else Obj []) ?s3 =
           (Inl (UsageLimitError msg 402),
            ?s3\<lparr>events := events ?s3 @
               [CheckUsage (userId workflow),
                Log WARN (tag ?rid @ ''User '' @ userId workflow
                  @ '' has exceeded usage limits'')]\<rparr>)"
      using ex [of ?s3 "if 0 < n then body else Obj []"] s2 by auto
    then show ?thesis using assms(1) pb n s2
      by (simp add: POST_def handlerCatch_def run)
  qed
  from get post show ?thesis by blast
qed

text \<open>C4, witness: the sample workflow with an owner over the limit.\<close>

theorem C4_usage_limit_before_work_witness:
  "validateWorkflowAccess (demoEnv\<lparr>checkServerSideUsageLimits :=
       (\<lambda>u. \<lparr>isExceeded = True, currentUsage = 10, limit = 10,
               usage_message = Some ''Limit reached''\<rparr>)\<rparr>)
     \<lparr>bodyText = []\<rparr> ''wf1'' = ValidationOk demoWorkflow
   \<and> ''wf1:abcdef01'' \<notin> runningExecutions idle
   \<and> isExceeded (\<lparr>isExceeded = True, currentUsage = 10, limit = 10,
                   usage_message = Some ''Limit reached''\<rparr>)
   \<and> bodyAccepted (demoEnv\<lparr>checkServerSideUsageLimits :=
              (\<lambda>u. \<lparr>isExceeded = True, currentUsage = 10, limit = 10,
                      usage_message = Some ''Limit reached''\<rparr>)\<rparr>) \<lparr>bodyText = []\<rparr>
   \<and> (\<exists>msg. GET (demoEnv\<lparr>checkServerSideUsageLimits :=
              (\<lambda>u. \<lparr>isExceeded = True, currentUsage = 10, limit = 10,
                      usage_message = Some ''Limit reached''\<rparr>)\<rparr>)
         \<lparr>bodyText = []\<rparr> ''wf1'' idle =
        (Inr (ErrorResponse msg 402 (Some ''USAGE_LIMIT_EXCEEDED'')),
         \<lparr>runningExecutions = {},
          events = [Log DEBUG ''[abcdef01] GET execution request for workflow: wf1'',
                    ValidateAccess ''wf1'',
                    CheckUsage ''u1'',
                    Log WARN ''[abcdef01] User u1 has exceeded usage limits'',
                    Log ERROR ''[abcdef01] Error executing workflow: wf1'']\<rparr>))
   \<and> (\<exists>msg. fst (POST (demoEnv\<lparr>checkServerSideUsageLimits :=
              (\<lambda>u. \<lparr>isExceeded = True, currentUsage = 10, limit = 10,
                      usage_message = Some ''Limit reached''\<rparr>)\<rparr>)
         \<lparr>bodyText = []\<rparr> ''wf1'' idle) =
        Inr (ErrorResponse msg 402 (Some ''USAGE_LIMIT_EXCEEDED'')))
   \<and> filter isExecutionWork (events (snd (POST (demoEnv\<lparr>checkServerSideUsageLimits :=
              (\<lambda>u. \<lparr>isExceeded = True, currentUsage = 10, limit = 10,
                      usage_message = Some ''Limit reached''\<rparr>)\<rparr>)
         \<lparr>bodyText = []\<rparr> ''wf1'' idle))) = []"
proof -
  let ?env = "demoEnv\<lparr>checkServerSideUsageLimits :=
       (\<lambda>u. \<lparr>isExceeded = True, currentUsage = 10, limit = 10,
               usage_message = Some ''Limit reached''\<rparr>)\<rparr>"
  have v: "validateWorkflowAccess ?env \<lparr>bodyText = []\<rparr> ''wf1'' = ValidationOk demoWorkflow"
    by (simp add: demoEnv_def)
  have k: "executionKeyOf (workflow_id demoWorkflow) (take 8 (randomUUID ?env))
        \<notin> runningExecutions idle"
    by (simp add: demo executionKeyOf_def)
  have x: "isExceeded (checkServerSideUsageLimits ?env (userId demoWorkflow))"
    by (simp add: demoEnv_def)
  have b: "bodyAccepted ?env \<lparr>bodyText = []\<rparr>"
    by (simp add: bodyAccepted_def isBlank_Nil)
  show ?thesis
    using C4_usage_limit_before_work [OF v k x] v b
    by (simp add: demo executionKeyOf_def tag_def)
qed

section \<open>C5: a duplicate request\<close>

text \<open>
  Claim C5, as amended. For every request (GET, or POST with an accepted body) whose
  execution key is already in the registry, the call fails with the error
  \<^verbatim>\<open>Execution is already running\<close>; the handler answers with status 500 and code
  \<^verbatim>\<open>EXECUTION_ERROR\<close>, the answer of every generic execution failure; the registry is
  unchanged, the usage lookup is not made and no persistence record is written.
\<close>

theorem C5_duplicate_is_generic_failure:
  assumes "validateWorkflowAccess env req wfId = ValidationOk workflow"
      and "executionKeyOf (workflow_id workflow) (take 8 (randomUUID env)) \<in> runningExecutions s"
  shows "GET env req wfId s =
           (Inr (ErrorResponse ''Execution is already running'' 500 (Some ''EXECUTION_ERROR'')),
            s\<lparr>events := events s @
               [Log DEBUG (tag (take 8 (randomUUID env))
                  @ ''GET execution request for workflow: '' @ wfId),
                ValidateAccess wfId,
                Log WARN (tag (take 8 (randomUUID env)) @ ''Execution is already running: ''
                  @ executionKeyOf (workflow_id workflow) (take 8 (randomUUID env))),
                Log ERROR (tag (take 8 (randomUUID env))
                  @ ''Error executing workflow: '' @ wfId)]\<rparr>)
       \<and> (bodyAccepted env req \<longrightarrow>
            fst (POST env req wfId s) =
              Inr (ErrorResponse ''Execution is already running'' 500 (Some ''EXECUTION_ERROR''))
          \<and> runningExecutions (snd (POST env req wfId s)) = runningExecutions s
          \<and> filter isUsageLookup (events (snd (POST env req wfId s)))
              = filter isUsageLookup (events s)
          \<and> filter isPersistence (events (snd (POST env req wfId s)))
              = filter isPersistence (events s))"
proof -
  let ?rid = "take 8 (randomUUID env)"
  have dup: "\<And>input s0. runningExecutions s0 = runningExecutions s \<Longrightarrow>
      executeWorkflow env workflow ?rid input s0 =
        (Inl (Error ''Execution is already running''),
         s0\<lparr>events := events s0 @
            [Log WARN (tag ?rid @ ''Execution is already running: ''
               @ executionKeyOf (workflow_id workflow) ?rid)]\<rparr>)"
    using assms(2) by (intro executeWorkflow_rejected admissionChecks_duplicate) simp
  have get: "GET env req wfId s =
           (Inr (ErrorResponse ''Execution is already running'' 500 (Some ''EXECUTION_ERROR'')),
            s\<lparr>events := events s @
               [Log DEBUG (tag ?rid @ ''GET execution request for workflow: '' @ wfId),
                ValidateAccess wfId,
                Log WARN (tag ?rid @ ''Execution is already running: ''
                  @ executionKeyOf (workflow_id workflow) ?rid),
                Log ERROR (tag ?rid @ ''Error executing workflow: '' @ wfId)]\<rparr>)"
    using assms(1) by (simp add: GET_def handlerCatch_def dup run)
  have post: "fst (POST env req wfId s) =
              Inr (ErrorResponse ''Execution is already running'' 500 (Some ''EXECUTION_ERROR''))
          \<and> runningExecutions (snd (POST env req wfId s)) = runningExecutions s
          \<and> filter isUsageLookup (events (snd (POST env req wfId s)))
              = filter isUsageLookup (events s)
          \<and> filter isPersistence (events (snd (POST env req wfId s)))
              = filter isPersistence (events s)"
    if "bodyAccepted env req"
    using assms(1) that
    by (auto simp add: POST_def parseBody_def bodyAccepted_def handlerCatch_def dup run
          split: sum.splits if_splits)
  from get post show ?thesis by blast
qed

text \<open>C5, witness: a GET and an empty POST for a workflow whose key is registered.\<close>

theorem C5_duplicate_is_generic_failure_witness:
  "validateWorkflowAccess demoEnv \<lparr>bodyText = []\<rparr> ''wf1'' = ValidationOk demoWorkflow
   \<and> executionKeyOf (workflow_id demoWorkflow) (take 8 (randomUUID demoEnv))
        \<in> runningExecutions (idle\<lparr>runningExecutions := {''wf1:abcdef01''}\<rparr>)
   \<and> bodyAccepted demoEnv \<lparr>bodyText = []\<rparr>
   \<and> fst (GET demoEnv \<lparr>bodyText = []\<rparr> ''wf1'' (idle\<lparr>runningExecutions := {''wf1:abcdef01''}\<rparr>))
       = Inr (ErrorResponse ''Execution is already running'' 500 (Some ''EXECUTION_ERROR''))
   \<and> fst (POST demoEnv \<lparr>bodyText = []\<rparr> ''wf1'' (idle\<lparr>runningExecutions := {''wf1:abcdef01''}\<rparr>))
       = Inr (ErrorResponse ''Execution is already running'' 500 (Some ''EXECUTION_ERROR''))
   \<and> filter isUsageLookup
        (events (snd (POST demoEnv \<lparr>bodyText = []\<rparr> ''wf1''
           (idle\<lparr>runningExecutions := {''wf1:abcdef01''}\<rparr>)))) = []
   \<and> filter isPersistence
        (events (snd (POST demoEnv \<lparr>bodyText = []\<rparr> ''wf1''
           (idle\<lparr>runningExecutions := {''wf1:abcdef01''}\<rparr>)))) = []"
proof -
  let ?s = "idle\<lparr>runningExecutions := {''wf1:abcdef01''}\<rparr>"
  have v: "validateWorkflowAccess demoEnv \<lparr>bodyText = []\<rparr> ''wf1'' = ValidationOk demoWorkflow"
    by (simp add: demoEnv_def)
  have k: "executionKeyOf (workflow_id demoWorkflow) (take 8 (randomUUID demoEnv))
        \<in> runningExecutions ?s"
    by (simp add: demoEnv_def demoWorkflow_def executionKeyOf_def idle_def)
  have b: "bodyAccepted demoEnv \<lparr>bodyText = []\<rparr>"
    by (simp add: bodyAccepted_def isBlank_Nil)
  show ?thesis
    using C5_duplicate_is_generic_failure [OF v k] v k b
    by (simp add: idle_def)
qed

text \<open>
  C5 as stated fails: the duplicate is not answered with a conflict status of its own.
  Its status and code are those of an engine fault.
\<close>

theorem C5_conflict_status_counterexample:
  "fst (GET demoEnv \<lparr>bodyText = []\<rparr> ''wf1'' (idle\<lparr>runningExecutions := {''wf1:abcdef01''}\<rparr>))
     = Inr (ErrorResponse ''Execution is already running'' 500 (Some ''EXECUTION_ERROR''))
   \<and> fst (GET (demoEnv\<lparr>execute := (\<lambda>args w. Inl ''engine fault'')\<rparr>) \<lparr>bodyText = []\<rparr> ''wf1'' idle)
     = Inr (ErrorResponse ''engine fault'' 500 (Some ''EXECUTION_ERROR''))"
  by (simp add: handlers phases run demo)

section \<open>C6: the counters\<close>

text \<open>
  Claim C6, as amended. In the trace of a call, the updates of the external stores
  other than the persistence records are these. When the engine was invoked and
  returned a result whose \<^verbatim>\<open>success\<close> is true: one call of the update of the workflow's
  run counter, followed, if that call returns, by one call of the update of the owner's
  API-call counter and last-active time; and this whether or not a later step (the
  second update, the trace spans, the persistence of the logs) fails the call. None at
  all otherwise: the engine was not reached, it threw, or its result has no true
  \<^verbatim>\<open>success\<close>.
\<close>

theorem C6_counters_follow_engine_success:
  assumes "events s = []"
  shows "filter isBookkeeping (events (snd (executeWorkflow env workflow requestId input s)))
     = (if list_ex (succeededWith env)
             (events (snd (executeWorkflow env workflow requestId input s)))
        then (case updateWorkflowRunCounts env (workflow_id workflow) of
                Inr u \<Rightarrow> [UpdateWorkflowRunCounts (workflow_id workflow),
                          UpdateUserStats (userId workflow)]
              | Inl e \<Rightarrow> [UpdateWorkflowRunCounts (workflow_id workflow)])
        else [])"
proof -
  obtain invoked where
    "filter isExecute (events (snd (executeWorkflow env workflow requestId input s)))
        = filter isExecute (events s) @ invoked"
    "filter isBookkeeping (events (snd (executeWorkflow env workflow requestId input s)))
        = filter isBookkeeping (events s)
          @ (if list_ex (succeededWith env) invoked
             then (case updateWorkflowRunCounts env (workflow_id workflow) of
                     Inr u \<Rightarrow> [UpdateWorkflowRunCounts (workflow_id workflow),
                               UpdateUserStats (userId workflow)]
                   | Inl e \<Rightarrow> [UpdateWorkflowRunCounts (workflow_id workflow)])
             else [])"
    using executeWorkflow_trace [of env workflow requestId input s] by blast
  then show ?thesis
    using assms
      list_ex_succeededWith [of env "events (snd (executeWorkflow env workflow requestId input s))"]
    by simp
qed

text \<open>
  C6, witness: the sample call; the same call with a failed engine result; and the
  same call with a run counter whose update fails.
\<close>

theorem C6_counters_follow_engine_success_witness:
  "events idle = []
   \<and> list_ex (succeededWith demoEnv)
        (events (snd (executeWorkflow demoEnv demoWorkflow ''r1'' Undefined idle)))
   \<and> filter isBookkeeping (events (snd (executeWorkflow demoEnv demoWorkflow ''r1'' Undefined idle)))
       = [UpdateWorkflowRunCounts ''wf1'', UpdateUserStats ''u1'']
   \<and> \<not> list_ex (succeededWith (demoEnv\<lparr>execute := (\<lambda>args w. Inr [(''success'', Bool False)])\<rparr>))
        (events (snd (executeWorkflow
           (demoEnv\<lparr>execute := (\<lambda>args w. Inr [(''success'', Bool False)])\<rparr>)
           demoWorkflow ''r1'' Undefined idle)))
   \<and> filter isBookkeeping (events (snd (executeWorkflow
           (demoEnv\<lparr>execute := (\<lambda>args w. Inr [(''success'', Bool False)])\<rparr>)
           demoWorkflow ''r1'' Undefined idle))) = []
   \<and> list_ex (succeededWith countFailEnv)
        (events (snd (executeWorkflow countFailEnv demoWorkflow ''r1'' Undefined idle)))
   \<and> updateWorkflowRunCounts countFailEnv ''wf1'' = Inl (Error ''store down'')
   \<and> filter isBookkeeping
        (events (snd (executeWorkflow countFailEnv demoWorkflow ''r1'' Undefined idle)))
       = [UpdateWorkflowRunCounts ''wf1'']"
proof -
  let ?env = "demoEnv\<lparr>execute := (\<lambda>args w. Inr [(''success'', Bool False)])\<rparr>"
  have e: "events idle = []" by (simp add: idle_def)
  have yes: "list_ex (succeededWith demoEnv)
        (events (snd (executeWorkflow demoEnv demoWorkflow ''r1'' Undefined idle)))"
    by (simp add: phases run demo resultSucceeded_def)
  have no: "\<not> list_ex (succeededWith ?env)
        (events (snd (executeWorkflow ?env demoWorkflow ''r1'' Undefined idle)))"
    by (simp add: phases run demo resultSucceeded_def)
  have half: "list_ex (succeededWith countFailEnv)
        (events (snd (executeWorkflow countFailEnv demoWorkflow ''r1'' Undefined idle)))"
    by (simp add: phases run demo countFailEnv_def resultSucceeded_def)
  have down: "updateWorkflowRunCounts countFailEnv ''wf1'' = Inl (Error ''store down'')"
    by (simp add: countFailEnv_def)
  show ?thesis
    using C6_counters_follow_engine_success [OF e, of demoEnv demoWorkflow "''r1''" Undefined]
      C6_counters_follow_engine_success [OF e, of ?env demoWorkflow "''r1''" Undefined]
      C6_counters_follow_engine_success [OF e, of countFailEnv demoWorkflow "''r1''" Undefined]
      e yes no half down
    by (simp add: demoWorkflow_def demoEnv_def)
qed

text \<open>
  C6 as stated fails on both sides. A call whose persistence of the logs fails is a
  failed execution, and both counters have been updated by then; a call whose engine
  result has a true \<^verbatim>\<open>success\<close> but whose run-counter update fails never updates the
  owner's counter.
\<close>

theorem C6_counters_counterexample:
  "fst (executeWorkflow logsFailEnv demoWorkflow ''r1'' Undefined idle)
     = Inl (Error ''sink down'')
   \<and> filter isBookkeeping
        (events (snd (executeWorkflow logsFailEnv demoWorkflow ''r1'' Undefined idle)))
       = [UpdateWorkflowRunCounts ''wf1'', UpdateUserStats ''u1'']
   \<and> list_ex (succeededWith countFailEnv)
        (events (snd (executeWorkflow countFailEnv demoWorkflow ''r1'' Undefined idle)))
   \<and> filter isBookkeeping
        (events (snd (executeWorkflow countFailEnv demoWorkflow ''r1'' Undefined idle)))
       = [UpdateWorkflowRunCounts ''wf1'']"
  by (simp add: phases run demo logsFailEnv_def countFailEnv_def resultSucceeded_def)

section \<open>C7: malformed workflow variables\<close>

text \<open>
  Claim C7, as amended. When the workflow-variables field is a non-empty string that
  \<^verbatim>\<open>JSON.parse\<close> rejects, the normalisation returns the empty object, records one
  error-level message and throws nothing; and a call that has passed admission and
  the preparation of lines 88-222 then invokes the engine, exactly once, with the empty
  object as its workflow variables.
\<close>

theorem C7_malformed_variables_are_tolerated:
  assumes "variables workflow = Str text" and "text \<noteq> []" and "jsonParse env text = Inl msg"
  shows "normalizeWorkflowVariables env workflow requestId s1 =
           (Inr (Obj []),
            s1\<lparr>events := events s1 @
               [Log ERROR (tag requestId @ ''Failed to parse workflow variables: ''
                  @ workflow_id workflow)]\<rparr>)
       \<and> (admissionChecks env workflow requestId s = (Inr (), s0)
          \<and> preparePhase env workflow requestId s0
              = (Inr (loaded, merged, decrypted, processed), s1) \<longrightarrow>
            filter isExecute (events (snd (executeWorkflow env workflow requestId input s)))
              = filter isExecute (events s)
                @ [Execute \<lparr>serializedWorkflow = serializeWorkflow env merged (edges loaded)
                                                    (loops loaded) (parallels loaded),
                             blockStates = processed, envVars = decrypted,
                             workflowInput = input, workflowVariables = Obj []\<rparr>
                     (workflow_id workflow)])"
proof (intro conjI impI)
  show nn: "normalizeWorkflowVariables env workflow requestId s1 =
           (Inr (Obj []),
            s1\<lparr>events := events s1 @
               [Log ERROR (tag requestId @ ''Failed to parse workflow variables: ''
                  @ workflow_id workflow)]\<rparr>)"
    using assms by (simp add: normalizeWorkflowVariables_def run)
  assume reach: "admissionChecks env workflow requestId s = (Inr (), s0)
          \<and> preparePhase env workflow requestId s0
              = (Inr (loaded, merged, decrypted, processed), s1)"
  then have adm: "admissionChecks env workflow requestId s = (Inr (), s0)"
    and pp: "preparePhase env workflow requestId s0
              = (Inr (loaded, merged, decrypted, processed), s1)"
    by simp_all
  have "filter isExecute (events s1) = filter isExecute (events s)"
    using filter_admissionChecks [OF _ adm] filter_preparePhase [OF _ pp] preparatory_kinds
    by simp
  then show "filter isExecute (events (snd (executeWorkflow env workflow requestId input s)))
              = filter isExecute (events s)
                @ [Execute \<lparr>serializedWorkflow = serializeWorkflow env merged (edges loaded)
                                                    (loops loaded) (parallels loaded),
                             blockStates = processed, envVars = decrypted,
                             workflowInput = input, workflowVariables = Obj []\<rparr>
                     (workflow_id workflow)]"
    using filter_executeWorkflow [OF adm, of input] tryBody_after_prepare [OF pp nn, of input]
    by simp
qed

text \<open>C7, witness: the sample workflow with a truncated JSON text as its variables.\<close>

theorem C7_malformed_variables_are_tolerated_witness:
  "variables (demoWorkflow\<lparr>variables := Str ''{oops''\<rparr>) = Str ''{oops''
   \<and> ''{oops'' \<noteq> []
   \<and> jsonParse demoEnv ''{oops'' = Inl ''Unexpected end of JSON input''
   \<and> fst (admissionChecks demoEnv (demoWorkflow\<lparr>variables := Str ''{oops''\<rparr>) ''r1'' idle)
       = Inr ()
   \<and> fst (preparePhase demoEnv (demoWorkflow\<lparr>variables := Str ''{oops''\<rparr>) ''r1''
            (snd (admissionChecks demoEnv (demoWorkflow\<lparr>variables := Str ''{oops''\<rparr>)
                    ''r1'' idle)))
       = Inr (\<lparr>blocks = demoBlocks, edges = Arr [], loops = Obj [], parallels = Obj []\<rparr>,
              demoBlocks, [(''A'', ''x''), (''B'', ''y'')],
              [(''b1'', [(''prompt'', Str ''x and y''), (''n'', Num 3)])])
   \<and> fst (normalizeWorkflowVariables demoEnv (demoWorkflow\<lparr>variables := Str ''{oops''\<rparr>)
            ''r1'' idle) = Inr (Obj [])
   \<and> Log ERROR ''[r1] Failed to parse workflow variables: wf1''
        \<in> set (events (snd (normalizeWorkflowVariables demoEnv
                 (demoWorkflow\<lparr>variables := Str ''{oops''\<rparr>) ''r1'' idle)))
   \<and> filter isExecute (events (snd (executeWorkflow demoEnv
          (demoWorkflow\<lparr>variables := Str ''{oops''\<rparr>) ''r1'' Undefined idle)))
       = [Execute \<lparr>serializedWorkflow = Obj [],
                   blockStates = [(''b1'', [(''prompt'', Str ''x and y''), (''n'', Num 3)])],
                   envVars = [(''A'', ''x''), (''B'', ''y'')],
                   workflowInput = Undefined, workflowVariables = Obj []\<rparr> ''wf1'']"
proof -
  let ?wf = "demoWorkflow\<lparr>variables := Str ''{oops''\<rparr>"
  let ?s0 = "snd (admissionChecks demoEnv ?wf ''r1'' idle)"
  let ?s1 = "snd (preparePhase demoEnv ?wf ''r1'' ?s0)"
  let ?loaded = "\<lparr>blocks = demoBlocks, edges = Arr [], loops = Obj [], parallels = Obj []\<rparr>"
  have v: "variables ?wf = Str ''{oops''" by simp
  have t: "''{oops'' \<noteq> []" by simp
  have j: "jsonParse demoEnv ''{oops'' = Inl ''Unexpected end of JSON input''"
    by (simp add: demoEnv_def)
  have a: "fst (admissionChecks demoEnv ?wf ''r1'' idle) = Inr ()"
    by (simp add: admissionChecks_cases demo executionKeyOf_def)
  have p: "fst (preparePhase demoEnv ?wf ''r1'' ?s0)
       = Inr (?loaded, demoBlocks, [(''A'', ''x''), (''B'', ''y'')],
              [(''b1'', [(''prompt'', Str ''x and y''), (''n'', Num 3)])])"
    by (simp add: admissionChecks_cases phases run demo)
  have a': "admissionChecks demoEnv ?wf ''r1'' idle = (Inr (), ?s0)"
    using a by (simp add: prod_eq_iff)
  have p': "preparePhase demoEnv ?wf ''r1'' ?s0
       = (Inr (?loaded, demoBlocks, [(''A'', ''x''), (''B'', ''y'')],
              [(''b1'', [(''prompt'', Str ''x and y''), (''n'', Num 3)])]), ?s1)"
    using p by (simp add: prod_eq_iff)
  note main = C7_malformed_variables_are_tolerated [OF v t j, where requestId = "''r1''"]
  have n: "fst (normalizeWorkflowVariables demoEnv ?wf ''r1'' idle) = Inr (Obj [])"
    and l: "Log ERROR ''[r1] Failed to parse workflow variables: wf1''
        \<in> set (events (snd (normalizeWorkflowVariables demoEnv ?wf ''r1'' idle)))"
    using main [where ?s1.0 = idle and s = idle and ?s0.0 = idle]
    by (simp_all add: tag_def demoWorkflow_def)
  have x: "filter isExecute (events (snd (executeWorkflow demoEnv ?wf ''r1'' Undefined idle)))
       = [Execute \<lparr>serializedWorkflow = Obj [],
                   blockStates = [(''b1'', [(''prompt'', Str ''x and y''), (''n'', Num 3)])],
                   envVars = [(''A'', ''x''), (''B'', ''y'')],
                   workflowInput = Undefined, workflowVariables = Obj []\<rparr> ''wf1'']"
    using main [where ?s1.0 = ?s1 and s = idle and ?s0.0 = ?s0 and input = Undefined
        and loaded = ?loaded and merged = demoBlocks
        and decrypted = "[(''A'', ''x''), (''B'', ''y'')]"
        and processed = "[(''b1'', [(''prompt'', Str ''x and y''), (''n'', Num 3)])]"]
      a' p'
    by (simp add: demoEnv_def demoWorkflow_def idle_def)
  from v t j a p n l x show ?thesis by (intro conjI)
qed

text \<open>
  C7 as stated fails for the empty string: it does not parse, but line 226 treats it as
  absent, so no parse is tried and no failure is logged; the one message is the
  debug-level note that there are no variables.
\<close>

theorem C7_empty_string_counterexample:
  "jsonParse demoEnv [] = Inl ''Unexpected end of JSON input''
   \<and> normalizeWorkflowVariables demoEnv (demoWorkflow\<lparr>variables := Str []\<rparr>) ''r1'' idle
     = (Inr (Obj []),
        \<lparr>runningExecutions = {},
         events = [Log DEBUG ''[r1] No workflow variables found for: wf1'']\<rparr>)"
  by (simp add: normalizeWorkflowVariables_def run demo tag_def)

text \<open>The same for every workflow whose variables are the empty string.\<close>

lemma normalizeWorkflowVariables_empty:
  assumes "variables workflow = Str []"
  shows "normalizeWorkflowVariables env workflow requestId s =
           (Inr (Obj []),
            s\<lparr>events := events s @
               [Log DEBUG (tag requestId @ ''No workflow variables found for: ''
                  @ workflow_id workflow)]\<rparr>)"
  using assms by (simp add: normalizeWorkflowVariables_def run)

text \<open>
  A text that parses is outside the claim; for the record, when it parses to \<^verbatim>\<open>null\<close>
  the assignment of line 230 has happened before \<^verbatim>\<open>Object.keys\<close> throws on line 236, so
  the same error message is logged and the engine receives \<^verbatim>\<open>null\<close>, not the empty
  object.
\<close>

lemma normalizeWorkflowVariables_null:
  assumes "variables workflow = Str text" and "text \<noteq> []" and "jsonParse env text = Inr Null"
  shows "normalizeWorkflowVariables env workflow requestId s =
           (Inr Null,
            s\<lparr>events := events s @
               [Log ERROR (tag requestId @ ''Failed to parse workflow variables: ''
                  @ workflow_id workflow)]\<rparr>)"
  using assms by (simp add: normalizeWorkflowVariables_def loadedVariables_def run)

section \<open>C8: how errors are propagated\<close>

text \<open>
  Claim C8, as amended. An error thrown by the admission checks (the duplicate and the
  usage-limit error, both thrown before the \<^verbatim>\<open>try\<close> statement) leaves
  \<^verbatim>\<open>executeWorkflow\<close> unchanged, with no error-level message and no persistence record.
  An error thrown inside the \<^verbatim>\<open>try\<close> block is logged at error level with the request
  and workflow identifiers and reported to \<^verbatim>\<open>persistExecutionError\<close> with the workflow and
  execution identifiers; when the report returns, the error is thrown again unchanged,
  and when the report itself fails, what the report throws leaves the function in its
  place.
\<close>

theorem C8_error_propagation:
  "(admissionChecks env workflow requestId s = (Inl e, s') \<longrightarrow>
      executeWorkflow env workflow requestId input s = (Inl e, s')
    \<and> filter isPersistence (events s') = filter isPersistence (events s)
    \<and> filter isErrorLog (events s') = filter isErrorLog (events s))
   \<and> (admissionChecks env workflow requestId s = (Inr (), s0)
       \<and> tryBody env workflow requestId input s0 = (Inl e, s1) \<longrightarrow>
      executeWorkflow env workflow requestId input s =
        (Inl (case persistExecutionError env (workflow_id workflow) (uuidv4 env) e of
                Inr u \<Rightarrow> e
              | Inl sinkError \<Rightarrow> sinkError),
         s1\<lparr>events := events s1 @
              [Log ERROR (tag requestId @ ''Workflow execution failed: ''
                 @ workflow_id workflow),
               PersistExecutionError (workflow_id workflow) (uuidv4 env) e],
            runningExecutions := runningExecutions s1
              - {executionKeyOf (workflow_id workflow) requestId}\<rparr>))"
proof (intro conjI impI)
  assume a: "admissionChecks env workflow requestId s = (Inl e, s')"
  show "executeWorkflow env workflow requestId input s = (Inl e, s')"
    using a by (rule executeWorkflow_rejected)
  show "filter isPersistence (events s') = filter isPersistence (events s)"
    using a by (auto simp: admissionChecks_cases split: if_splits)
  show "filter isErrorLog (events s') = filter isErrorLog (events s)"
    using a by (auto simp: admissionChecks_cases split: if_splits)
next
  assume "admissionChecks env workflow requestId s = (Inr (), s0)
       \<and> tryBody env workflow requestId input s0 = (Inl e, s1)"
  then show "executeWorkflow env workflow requestId input s =
        (Inl (case persistExecutionError env (workflow_id workflow) (uuidv4 env) e of
                Inr u \<Rightarrow> e
              | Inl sinkError \<Rightarrow> sinkError),
         s1\<lparr>events := events s1 @
              [Log ERROR (tag requestId @ ''Workflow execution failed: ''
                 @ workflow_id workflow),
               PersistExecutionError (workflow_id workflow) (uuidv4 env) e],
            runningExecutions := runningExecutions s1
              - {executionKeyOf (workflow_id workflow) requestId}\<rparr>)"
    by (intro executeWorkflow_try_error) auto
qed

text \<open>
  C8, witness: a duplicate request; a request whose engine call faults; and the same
  with a sink whose failure report fails.
\<close>

theorem C8_error_propagation_witness:
  "admissionChecks demoEnv demoWorkflow ''r1'' (idle\<lparr>runningExecutions := {''wf1:r1''}\<rparr>)
     = (Inl (Error ''Execution is already running''),
        \<lparr>runningExecutions = {''wf1:r1''},
         events = [Log WARN ''[r1] Execution is already running: wf1:r1'']\<rparr>)
   \<and> executeWorkflow demoEnv demoWorkflow ''r1'' Undefined
         (idle\<lparr>runningExecutions := {''wf1:r1''}\<rparr>)
     = (Inl (Error ''Execution is already running''),
        \<lparr>runningExecutions = {''wf1:r1''},
         events = [Log WARN ''[r1] Execution is already running: wf1:r1'']\<rparr>)
   \<and> fst (admissionChecks (demoEnv\<lparr>execute := (\<lambda>args w. Inl ''engine fault'')\<rparr>)
            demoWorkflow ''r1'' idle) = Inr ()
   \<and> fst (tryBody (demoEnv\<lparr>execute := (\<lambda>args w. Inl ''engine fault'')\<rparr>)
            demoWorkflow ''r1'' Undefined
            (snd (admissionChecks (demoEnv\<lparr>execute := (\<lambda>args w. Inl ''engine fault'')\<rparr>)
                    demoWorkflow ''r1'' idle))) = Inl (Error ''engine fault'')
   \<and> fst (executeWorkflow (demoEnv\<lparr>execute := (\<lambda>args w. Inl ''engine fault'')\<rparr>)
            demoWorkflow ''r1'' Undefined idle) = Inl (Error ''engine fault'')
   \<and> Log ERROR ''[r1] Workflow execution failed: wf1''
        \<in> set (events (snd (executeWorkflow
              (demoEnv\<lparr>execute := (\<lambda>args w. Inl ''engine fault'')\<rparr>)
              demoWorkflow ''r1'' Undefined idle)))
   \<and> PersistExecutionError ''wf1'' ''exec-1'' (Error ''engine fault'')
        \<in> set (events (snd (executeWorkflow
              (demoEnv\<lparr>execute := (\<lambda>args w. Inl ''engine fault'')\<rparr>)
              demoWorkflow ''r1'' Undefined idle)))
   \<and> fst (admissionChecks reportFailEnv demoWorkflow ''r1'' idle) = Inr ()
   \<and> fst (tryBody reportFailEnv demoWorkflow ''r1'' Undefined
            (snd (admissionChecks reportFailEnv demoWorkflow ''r1'' idle)))
       = Inl (Error ''engine fault'')
   \<and> fst (executeWorkflow reportFailEnv demoWorkflow ''r1'' Undefined idle)
       = Inl (Error ''sink down'')
   \<and> PersistExecutionError ''wf1'' ''exec-1'' (Error ''engine fault'')
        \<in> set (events (snd (executeWorkflow reportFailEnv demoWorkflow ''r1'' Undefined idle)))"
proof -
  let ?busy = "idle\<lparr>runningExecutions := {''wf1:r1''}\<rparr>"
  let ?env = "demoEnv\<lparr>execute := (\<lambda>args w. Inl ''engine fault'')\<rparr>"
  let ?s0 = "snd (admissionChecks ?env demoWorkflow ''r1'' idle)"
  let ?s1 = "snd (tryBody ?env demoWorkflow ''r1'' Undefined ?s0)"
  let ?t0 = "snd (admissionChecks reportFailEnv demoWorkflow ''r1'' idle)"
  let ?t1 = "snd (tryBody reportFailEnv demoWorkflow ''r1'' Undefined ?t0)"
  have rejected: "admissionChecks demoEnv demoWorkflow ''r1'' ?busy
     = (Inl (Error ''Execution is already running''),
        \<lparr>runningExecutions = {''wf1:r1''},
         events = [Log WARN ''[r1] Execution is already running: wf1:r1'']\<rparr>)"
    by (simp add: admissionChecks_cases demo executionKeyOf_def tag_def)
  have admitted: "fst (admissionChecks ?env demoWorkflow ''r1'' idle) = Inr ()"
    by (simp add: admissionChecks_cases demo executionKeyOf_def)
  have fault: "fst (tryBody ?env demoWorkflow ''r1'' Undefined ?s0) = Inl (Error ''engine fault'')"
    by (simp add: admissionChecks_cases phases run demo)
  have a: "admissionChecks ?env demoWorkflow ''r1'' idle = (Inr (), ?s0)"
    using admitted by (simp add: prod_eq_iff)
  have b: "tryBody ?env demoWorkflow ''r1'' Undefined ?s0 = (Inl (Error ''engine fault''), ?s1)"
    using fault by (simp add: prod_eq_iff)
  have admitted': "fst (admissionChecks reportFailEnv demoWorkflow ''r1'' idle) = Inr ()"
    by (simp add: admissionChecks_cases demo reportFailEnv_def executionKeyOf_def)
  have fault': "fst (tryBody reportFailEnv demoWorkflow ''r1'' Undefined ?t0)
      = Inl (Error ''engine fault'')"
    by (simp add: admissionChecks_cases phases run demo reportFailEnv_def)
  have a': "admissionChecks reportFailEnv demoWorkflow ''r1'' idle = (Inr (), ?t0)"
    using admitted' by (simp add: prod_eq_iff)
  have b': "tryBody reportFailEnv demoWorkflow ''r1'' Undefined ?t0
      = (Inl (Error ''engine fault''), ?t1)"
    using fault' by (simp add: prod_eq_iff)
  have first: "executeWorkflow demoEnv demoWorkflow ''r1'' Undefined ?busy
     = (Inl (Error ''Execution is already running''),
        \<lparr>runningExecutions = {''wf1:r1''},
         events = [Log WARN ''[r1] Execution is already running: wf1:r1'']\<rparr>)"
    using C8_error_propagation [where env = demoEnv and workflow = demoWorkflow
        and requestId = "''r1''" and s = ?busy and input = Undefined
        and e = "Error ''Execution is already running''"
        and s' = "\<lparr>runningExecutions = {''wf1:r1''},
          events = [Log WARN ''[r1] Execution is already running: wf1:r1'']\<rparr>"]
      rejected
    by simp
  have second: "executeWorkflow ?env demoWorkflow ''r1'' Undefined idle =
        (Inl (Error ''engine fault''),
         ?s1\<lparr>events := events ?s1 @
              [Log ERROR (tag ''r1'' @ ''Workflow execution failed: ''
                 @ workflow_id demoWorkflow),
               PersistExecutionError (workflow_id demoWorkflow) (uuidv4 ?env)
                 (Error ''engine fault'')],
            runningExecutions := runningExecutions ?s1
              - {executionKeyOf (workflow_id demoWorkflow) ''r1''}\<rparr>)"
    using C8_error_propagation [where env = ?env and workflow = demoWorkflow
        and requestId = "''r1''" and s = idle and input = Undefined
        and e = "Error ''engine fault''" and ?s0.0 = ?s0 and ?s1.0 = ?s1] a b
    by (simp add: demoEnv_def)
  have third: "fst (executeWorkflow ?env demoWorkflow ''r1'' Undefined idle)
      = Inl (Error ''engine fault'')"
    and fourth: "Log ERROR ''[r1] Workflow execution failed: wf1''
        \<in> set (events (snd (executeWorkflow ?env demoWorkflow ''r1'' Undefined idle)))"
    and fifth: "PersistExecutionError ''wf1'' ''exec-1'' (Error ''engine fault'')
        \<in> set (events (snd (executeWorkflow ?env demoWorkflow ''r1'' Undefined idle)))"
    unfolding second by (simp_all add: demoEnv_def demoWorkflow_def tag_def)
  have replaced: "executeWorkflow reportFailEnv demoWorkflow ''r1'' Undefined idle =
        (Inl (Error ''sink down''),
         ?t1\<lparr>events := events ?t1 @
              [Log ERROR (tag ''r1'' @ ''Workflow execution failed: ''
                 @ workflow_id demoWorkflow),
               PersistExecutionError (workflow_id demoWorkflow) (uuidv4 reportFailEnv)
                 (Error ''engine fault'')],
            runningExecutions := runningExecutions ?t1
              - {executionKeyOf (workflow_id demoWorkflow) ''r1''}\<rparr>)"
    using C8_error_propagation [where env = reportFailEnv and workflow = demoWorkflow
        and requestId = "''r1''" and s = idle and input = Undefined
        and e = "Error ''engine fault''" and ?s0.0 = ?t0 and ?s1.0 = ?t1] a' b'
    by (simp add: reportFailEnv_def)
  have sixth: "fst (executeWorkflow reportFailEnv demoWorkflow ''r1'' Undefined idle)
      = Inl (Error ''sink down'')"
    and seventh: "PersistExecutionError ''wf1'' ''exec-1'' (Error ''engine fault'')
        \<in> set (events (snd (executeWorkflow reportFailEnv demoWorkflow ''r1'' Undefined idle)))"
    unfolding replaced by (simp_all add: reportFailEnv_def demoEnv_def demoWorkflow_def)
  from rejected first admitted fault third fourth fifth admitted' fault' sixth seventh
  show ?thesis
    by (intro conjI)
qed

text \<open>
  C8 as stated fails. The duplicate error and the usage-limit error are thrown after
  the execution id exists, and the whole trace of each call has no error-level message
  and no record for the persistence sink. And an engine fault whose report to the sink
  fails does not reach the caller: the sink's error does.
\<close>

theorem C8_propagation_counterexample:
  "executeWorkflow demoEnv demoWorkflow ''r1'' Undefined
     (idle\<lparr>runningExecutions := {''wf1:r1''}\<rparr>)
     = (Inl (Error ''Execution is already running''),
        \<lparr>runningExecutions = {''wf1:r1''},
         events = [Log WARN ''[r1] Execution is already running: wf1:r1'']\<rparr>)
   \<and> executeWorkflow
       (demoEnv\<lparr>checkServerSideUsageLimits :=
          (\<lambda>u. \<lparr>isExceeded = True, currentUsage = 10, limit = 10,
                  usage_message = Some ''Limit reached''\<rparr>)\<rparr>)
       demoWorkflow ''r1'' Undefined idle
     = (Inl (UsageLimitError ''Limit reached'' 402),
        \<lparr>runningExecutions = {},
         events = [CheckUsage ''u1'', Log WARN ''[r1] User u1 has exceeded usage limits'']\<rparr>)
   \<and> fst (tryBody reportFailEnv demoWorkflow ''r1'' Undefined
            (snd (admissionChecks reportFailEnv demoWorkflow ''r1'' idle)))
       = Inl (Error ''engine fault'')
   \<and> fst (executeWorkflow reportFailEnv demoWorkflow ''r1'' Undefined idle)
       = Inl (Error ''sink down'')"
proof -
  have early: "executeWorkflow demoEnv demoWorkflow ''r1'' Undefined
     (idle\<lparr>runningExecutions := {''wf1:r1''}\<rparr>)
     = (Inl (Error ''Execution is already running''),
        \<lparr>runningExecutions = {''wf1:r1''},
         events = [Log WARN ''[r1] Execution is already running: wf1:r1'']\<rparr>)"
    and limit: "executeWorkflow
       (demoEnv\<lparr>checkServerSideUsageLimits :=
          (\<lambda>u. \<lparr>isExceeded = True, currentUsage = 10, limit = 10,
                  usage_message = Some ''Limit reached''\<rparr>)\<rparr>)
       demoWorkflow ''r1'' Undefined idle
     = (Inl (UsageLimitError ''Limit reached'' 402),
        \<lparr>runningExecutions = {},
         events = [CheckUsage ''u1'', Log WARN ''[r1] User u1 has exceeded usage limits'']\<rparr>)"
    by (simp_all add: executeWorkflow_def admissionChecks_cases new_UsageLimitError_def
          andThen_app demo executionKeyOf_def tag_def)
  have raised: "fst (tryBody reportFailEnv demoWorkflow ''r1'' Undefined
            (snd (admissionChecks reportFailEnv demoWorkflow ''r1'' idle)))
       = Inl (Error ''engine fault'')"
    by (simp add: admissionChecks_cases phases run demo reportFailEnv_def)
  have surfaced: "fst (executeWorkflow reportFailEnv demoWorkflow ''r1'' Undefined idle)
       = Inl (Error ''sink down'')"
    by (simp add: phases run demo reportFailEnv_def)
  from early limit raised surfaced show ?thesis by (intro conjI)
qed

section \<open>C9: only the execution result is carried on\<close>

text \<open>
  Claim C9. Whenever \<^verbatim>\<open>executeWorkflow\<close> returns a value, the engine was invoked exactly
  once in the call and returned a result of which the value is the \<^verbatim>\<open>execution\<close>
  component when the result has both a \<^verbatim>\<open>stream\<close> and an \<^verbatim>\<open>execution\<close> property, and
  the result itself otherwise; the trace spans are built from that value, and the one
  record written to the persistence sink is that value's properties with the spans
  and the duration added. The stream is part of nothing that is persisted or returned.
\<close>

theorem C9_only_the_execution_result:
  assumes "executeWorkflow env workflow requestId input s = (Inr v, s')"
  shows "\<exists>args result traceSpans totalDuration.
           filter isExecute (events s')
             = filter isExecute (events s) @ [Execute args (workflow_id workflow)]
         \<and> execute env args (workflow_id workflow) = Inr result
         \<and> v = (if ''stream'' \<in> fst ` set result \<and> ''execution'' \<in> fst ` set result
                then (case map_of result ''execution'' of Some x \<Rightarrow> x | None \<Rightarrow> Undefined)
                else Obj result)
         \<and> buildTraceSpans env v = Inr (traceSpans, totalDuration)
         \<and> filter isPersistence (events s')
             = filter isPersistence (events s)
               @ [PersistExecutionLogs (workflow_id workflow) (uuidv4 env)
                    (AList.update ''totalDuration'' totalDuration
                       (AList.update ''traceSpans'' traceSpans (spread v)))]"
proof -
  from assms obtain s0 loaded merged decrypted processed s1 wfVars s2 result sb where
    adm: "admissionChecks env workflow requestId s = (Inr (), s0)"
    and pp: "preparePhase env workflow requestId s0 = (Inr (loaded, merged, decrypted, processed), s1)"
    and nn: "normalizeWorkflowVariables env workflow requestId s1 = (Inr wfVars, s2)"
    and ex: "execute env
       \<lparr>serializedWorkflow = serializeWorkflow env merged (edges loaded) (loops loaded)
                               (parallels loaded),
        blockStates = processed, envVars = decrypted, workflowInput = input,
        workflowVariables = wfVars\<rparr> (workflow_id workflow) = Inr result"
    and rr: "recordResult env workflow requestId result
       (s2\<lparr>events := events s2 @
          [Log DEBUG (tag requestId @ ''Serializing workflow: '' @ workflow_id workflow),
           Execute \<lparr>serializedWorkflow = serializeWorkflow env merged (edges loaded)
                                           (loops loaded) (parallels loaded),
                    blockStates = processed, envVars = decrypted, workflowInput = input,
                    workflowVariables = wfVars\<rparr> (workflow_id workflow)]\<rparr>)
       = (Inr v, sb)"
    and sb: "events s' = events sb"
    by (rule executeWorkflow_returns)
  let ?args = "\<lparr>serializedWorkflow = serializeWorkflow env merged (edges loaded) (loops loaded)
                               (parallels loaded),
        blockStates = processed, envVars = decrypted, workflowInput = input,
        workflowVariables = wfVars\<rparr>"
  let ?s3 = "s2\<lparr>events := events s2 @
          [Log DEBUG (tag requestId @ ''Serializing workflow: '' @ workflow_id workflow),
           Execute ?args (workflow_id workflow)]\<rparr>"
  have fx: "filter isExecute (events s2) = filter isExecute (events s)"
    and fp: "filter isPersistence (events s2) = filter isPersistence (events s)"
    using filter_admissionChecks [OF _ adm] filter_preparePhase [OF _ pp]
      filter_normalizeWorkflowVariables [OF _ nn] preparatory_kinds
    by simp_all
  from recordResult_returns [OF rr] obtain traceSpans totalDuration where
    v: "v = executionResultOf result"
    and spans: "buildTraceSpans env v = Inr (traceSpans, totalDuration)"
    and persisted: "filter isPersistence (events sb)
       = filter isPersistence (events ?s3)
         @ [PersistExecutionLogs (workflow_id workflow) (uuidv4 env)
              (AList.update ''totalDuration'' totalDuration
                 (AList.update ''traceSpans'' traceSpans (spread v)))]"
    by blast
  have "filter isExecute (events sb) = filter isExecute (events ?s3)"
    using recordResult_invocations [of env workflow requestId result ?s3] rr by simp
  then have "filter isExecute (events s')
             = filter isExecute (events s) @ [Execute ?args (workflow_id workflow)]"
    using sb fx by simp
  moreover have "filter isPersistence (events s')
             = filter isPersistence (events s)
               @ [PersistExecutionLogs (workflow_id workflow) (uuidv4 env)
                    (AList.update ''totalDuration'' totalDuration
                       (AList.update ''traceSpans'' traceSpans (spread v)))]"
    using persisted sb fp by simp
  moreover have "v = (if ''stream'' \<in> fst ` set result \<and> ''execution'' \<in> fst ` set result
                then (case map_of result ''execution'' of Some x \<Rightarrow> x | None \<Rightarrow> Undefined)
                else Obj result)"
    using v by (simp add: executionResultOf_def)
  ultimately show ?thesis using ex spans by blast
qed

text \<open>C9, witness: an engine that returns a stream together with an execution result.\<close>

theorem C9_only_the_execution_result_witness:
  "executeWorkflow
     (demoEnv\<lparr>execute := (\<lambda>args w.
        Inr [(''stream'', Obj []), (''execution'', Obj [(''success'', Bool True)])])\<rparr>)
     demoWorkflow ''r1'' Undefined idle
   = (Inr (Obj [(''success'', Bool True)]),
      snd (executeWorkflow
        (demoEnv\<lparr>execute := (\<lambda>args w.
           Inr [(''stream'', Obj []), (''execution'', Obj [(''success'', Bool True)])])\<rparr>)
        demoWorkflow ''r1'' Undefined idle))
   \<and> (\<exists>args result.
         filter isExecute (events (snd (executeWorkflow
            (demoEnv\<lparr>execute := (\<lambda>args w.
               Inr [(''stream'', Obj []), (''execution'', Obj [(''success'', Bool True)])])\<rparr>)
            demoWorkflow ''r1'' Undefined idle)))
           = [Execute args ''wf1'']
       \<and> result = [(''stream'', Obj []), (''execution'', Obj [(''success'', Bool True)])]
       \<and> filter isPersistence (events (snd (executeWorkflow
            (demoEnv\<lparr>execute := (\<lambda>args w.
               Inr [(''stream'', Obj []), (''execution'', Obj [(''success'', Bool True)])])\<rparr>)
            demoWorkflow ''r1'' Undefined idle)))
           = [PersistExecutionLogs ''wf1'' ''exec-1''
                [(''success'', Bool True), (''traceSpans'', Arr []),
                 (''totalDuration'', Num 0)]])"
proof -
  let ?env = "demoEnv\<lparr>execute := (\<lambda>args w.
        Inr [(''stream'', Obj []), (''execution'', Obj [(''success'', Bool True)])])\<rparr>"
  let ?s' = "snd (executeWorkflow ?env demoWorkflow ''r1'' Undefined idle)"
  have "fst (executeWorkflow ?env demoWorkflow ''r1'' Undefined idle)
      = Inr (Obj [(''success'', Bool True)])"
    by (simp add: phases run demo)
  then have h: "executeWorkflow ?env demoWorkflow ''r1'' Undefined idle
      = (Inr (Obj [(''success'', Bool True)]), ?s')"
    by (simp add: prod_eq_iff)
  from C9_only_the_execution_result [OF h] obtain args result traceSpans totalDuration where
    "filter isExecute (events ?s')
       = filter isExecute (events idle) @ [Execute args (workflow_id demoWorkflow)]"
    "execute ?env args (workflow_id demoWorkflow) = Inr result"
    "buildTraceSpans ?env (Obj [(''success'', Bool True)]) = Inr (traceSpans, totalDuration)"
    "filter isPersistence (events ?s')
       = filter isPersistence (events idle)
         @ [PersistExecutionLogs (workflow_id demoWorkflow) (uuidv4 ?env)
              (AList.update ''totalDuration'' totalDuration
                 (AList.update ''traceSpans'' traceSpans
                    (spread (Obj [(''success'', Bool True)]))))]"
    by blast
  then have "filter isExecute (events ?s') = [Execute args ''wf1'']
       \<and> result = [(''stream'', Obj []), (''execution'', Obj [(''success'', Bool True)])]
       \<and> filter isPersistence (events ?s')
           = [PersistExecutionLogs ''wf1'' ''exec-1''
                [(''success'', Bool True), (''traceSpans'', Arr []),
                 (''totalDuration'', Num 0)]]"
    by (auto simp: demo)
  with h show ?thesis by blast
qed

section \<open>C10: every stored variable is decrypted\<close>

text \<open>
  Claim C10, as amended. For a call that has passed admission and the template
  substitution (lines 88-184), with \<open>vars\<close> the owner's stored variables. When every
  ciphertext decrypts, the decryption calls of the call after the substitution are one
  for every stored variable, in the order of the record, whatever the blocks refer to,
  and the engine is invoked with the mapping of all of them. When the decryption of a
  stored variable fails (those before it having decrypted), the whole call fails and
  the engine is not invoked; the error that names this variable is the one reported to
  the persistence sink, and it is the error of the call when that report returns; when
  the report itself fails, the call fails with what the report throws.
\<close>

theorem C10_every_stored_variable_is_decrypted:
  assumes "admissionChecks env workflow requestId s = (Inr (), s0)"
      and "resolvePhase env workflow requestId s0 = (Inr (loaded, merged, vars, current), s1)"
  shows "(list_all (decrypts env) vars \<longrightarrow>
            filter isDecrypt (events (snd (executeWorkflow env workflow requestId input s)))
              = filter isDecrypt (events s1) @ map (\<lambda>kv. DecryptSecret (snd kv)) vars
          \<and> (\<exists>args. filter isExecute
                        (events (snd (executeWorkflow env workflow requestId input s)))
                      = filter isExecute (events s) @ [Execute args (workflow_id workflow)]
                \<and> envVars args
                      = fold (\<lambda>kv. AList.update (fst kv) (projr (decryptSecret env (snd kv))))
                          vars []))
       \<and> (vars = front @ (name, encrypted) # rest \<and> list_all (decrypts env) front
            \<and> decryptSecret env encrypted = Inl msg \<longrightarrow>
            fst (executeWorkflow env workflow requestId input s)
              = Inl (case persistExecutionError env (workflow_id workflow) (uuidv4 env)
                            (Error (''Failed to decrypt environment variable '' @ quoted name
                               @ '': '' @ msg)) of
                       Inr u \<Rightarrow> Error (''Failed to decrypt environment variable ''
                                  @ quoted name @ '': '' @ msg)
                     | Inl sinkError \<Rightarrow> sinkError)
          \<and> filter isExecute (events (snd (executeWorkflow env workflow requestId input s)))
              = filter isExecute (events s)
          \<and> filter isPersistence
                (events (snd (executeWorkflow env workflow requestId input s)))
              = filter isPersistence (events s)
                @ [PersistExecutionError (workflow_id workflow) (uuidv4 env)
                     (Error (''Failed to decrypt environment variable '' @ quoted name
                        @ '': '' @ msg))])"
proof (intro conjI impI)
  assume ok: "list_all (decrypts env) vars"
  let ?dec = "fold (\<lambda>kv. AList.update (fst kv) (projr (decryptSecret env (snd kv)))) vars []"
  let ?s1' = "s1\<lparr>events := events s1 @ map (\<lambda>kv. DecryptSecret (snd kv)) vars\<rparr>"
  have d: "decryptEnvVars env requestId vars s1 = (Inr ?dec, ?s1')"
    using ok unfolding decryptEnvVars_def by (rule decryptEnvVars_all)
  obtain rp s2 where pb: "processBlockStates env requestId current ?s1' = (rp, s2)"
    by (cases "processBlockStates env requestId current ?s1'")
  have "keeps (\<lambda>s. filter isDecrypt (events s)) (processBlockStates env requestId current)"
    by (intro keeps_processBlockStates quiet_filter) simp
  then have f2: "filter isDecrypt (events s2) = filter isDecrypt (events ?s1')"
    using pb by (rule keepsD)
  have "\<exists>processed. rp = Inr processed"
    using processBlockStates_returns [of env requestId current ?s1'] pb by simp
  then obtain processed where rp: "rp = Inr processed" by blast
  have pp: "preparePhase env workflow requestId s0 = (Inr (loaded, merged, ?dec, processed), s2)"
    using assms(2) d pb rp by (simp add: preparePhase_def andThen_app ret_app)
  show "filter isDecrypt (events (snd (executeWorkflow env workflow requestId input s)))
              = filter isDecrypt (events s1) @ map (\<lambda>kv. DecryptSecret (snd kv)) vars"
    using filter_isDecrypt_executeWorkflow [OF assms(1) pp, of input] f2
    by (simp add: filter_map comp_def)
  obtain rn s3 where nn: "normalizeWorkflowVariables env workflow requestId s2 = (rn, s3)"
    by (cases "normalizeWorkflowVariables env workflow requestId s2")
  obtain wfVars where rn: "rn = Inr wfVars"
    using normalizeWorkflowVariables_returns [of env workflow requestId s2] nn by auto
  have "filter isExecute (events s3) = filter isExecute (events s2)"
    using preparatory_kinds(1) nn by (rule filter_normalizeWorkflowVariables)
  moreover have "filter isExecute (events s2) = filter isExecute (events s0)"
    using preparatory_kinds(1) pp by (rule filter_preparePhase)
  moreover have "filter isExecute (events s0) = filter isExecute (events s)"
    using preparatory_kinds(1) assms(1) by (rule filter_admissionChecks)
  ultimately have f3: "filter isExecute (events s3) = filter isExecute (events s)" by simp
  let ?args = "\<lparr>serializedWorkflow = serializeWorkflow env merged (edges loaded)
                    (loops loaded) (parallels loaded),
                 blockStates = processed, envVars = ?dec, workflowInput = input,
                 workflowVariables = wfVars\<rparr>"
  have "filter isExecute (events (snd (executeWorkflow env workflow requestId input s)))
          = filter isExecute (events s) @ [Execute ?args (workflow_id workflow)]"
    using filter_executeWorkflow [OF assms(1), of input]
      tryBody_after_prepare [OF pp, of wfVars s3 input] nn rn f3
    by simp
  moreover have "envVars ?args = ?dec" by simp
  ultimately show "\<exists>args. filter isExecute
                        (events (snd (executeWorkflow env workflow requestId input s)))
                      = filter isExecute (events s) @ [Execute args (workflow_id workflow)]
                \<and> envVars args = ?dec"
    by blast
next
  assume fails: "vars = front @ (name, encrypted) # rest \<and> list_all (decrypts env) front
            \<and> decryptSecret env encrypted = Inl msg"
  let ?e = "Error (''Failed to decrypt environment variable '' @ quoted name @ '': '' @ msg)"
  let ?s2 = "s1\<lparr>events := events s1 @ map (\<lambda>kv. DecryptSecret (snd kv)) front
           @ [DecryptSecret encrypted,
              Log ERROR (tag requestId @ ''Failed to decrypt environment variable ''
                @ quoted name)]\<rparr>"
  have d: "decryptEnvVars env requestId vars s1 = (Inl ?e, ?s2)"
    using fails unfolding decryptEnvVars_def
    by (simp add: decryptEnvVars_first_failure)
  have pp: "preparePhase env workflow requestId s0 = (Inl ?e, ?s2)"
    using assms(2) d by (simp add: preparePhase_def andThen_app)
  have tb: "tryBody env workflow requestId input s0 = (Inl ?e, ?s2)"
    using pp by (simp add: tryBody_def andThen_app)
  have "filter isExecute (events ?s2) = filter isExecute (events s0)"
    using preparatory_kinds(1) pp by (rule filter_preparePhase)
  moreover have "filter isExecute (events s0) = filter isExecute (events s)"
    using preparatory_kinds(1) assms(1) by (rule filter_admissionChecks)
  ultimately have quietly: "filter isExecute (events ?s2) = filter isExecute (events s)"
    by (rule trans)
  have "filter isPersistence (events ?s2) = filter isPersistence (events s0)"
    using preparatory_kinds(3) pp by (rule filter_preparePhase)
  moreover have "filter isPersistence (events s0) = filter isPersistence (events s)"
    using preparatory_kinds(3) assms(1) by (rule filter_admissionChecks)
  ultimately have unreported: "filter isPersistence (events ?s2) = filter isPersistence (events s)"
    by (rule trans)
  note call = executeWorkflow_try_error [OF assms(1) tb]
  show "fst (executeWorkflow env workflow requestId input s)
      = Inl (case persistExecutionError env (workflow_id workflow) (uuidv4 env) ?e of
               Inr u \<Rightarrow> ?e
             | Inl sinkError \<Rightarrow> sinkError)"
    by (simp only: call fst_conv)
  show "filter isExecute (events (snd (executeWorkflow env workflow requestId input s)))
              = filter isExecute (events s)"
    using quietly by (simp add: call)
  show "filter isPersistence (events (snd (executeWorkflow env workflow requestId input s)))
      = filter isPersistence (events s)
        @ [PersistExecutionError (workflow_id workflow) (uuidv4 env) ?e]"
    using unreported by (simp add: call)
qed

text \<open>
  C10, witness: two stored variables that no block refers to; both are decrypted, and
  when the second does not decrypt the call fails naming it, or, with a sink whose
  report fails, with the sink's error.
\<close>

theorem C10_every_stored_variable_is_decrypted_witness:
  "fst (admissionChecks unreferencedEnv demoWorkflow ''r1'' idle) = Inr ()
   \<and> fst (resolvePhase unreferencedEnv demoWorkflow ''r1''
            (snd (admissionChecks unreferencedEnv demoWorkflow ''r1'' idle)))
       = Inr (\<lparr>blocks = [(''b1'', \<lparr>subBlocks = [(''n'', Num 3)]\<rparr>)], edges = Arr [],
               loops = Obj [], parallels = Obj []\<rparr>,
              [(''b1'', \<lparr>subBlocks = [(''n'', Num 3)]\<rparr>)],
              [(''A'', ''encA''), (''B'', ''encB'')],
              [(''b1'', [(''n'', Num 3)])])
   \<and> list_all (decrypts unreferencedEnv) [(''A'', ''encA''), (''B'', ''encB'')]
   \<and> filter isDecrypt (events (snd (executeWorkflow unreferencedEnv demoWorkflow ''r1''
        Undefined idle))) = [DecryptSecret ''encA'', DecryptSecret ''encB'']
   \<and> (\<exists>args. filter isExecute (events (snd (executeWorkflow unreferencedEnv demoWorkflow
              ''r1'' Undefined idle))) = [Execute args ''wf1'']
          \<and> envVars args = [(''A'', ''x''), (''B'', ''y'')])
   \<and> fst (admissionChecks badKeyEnv demoWorkflow ''r1'' idle) = Inr ()
   \<and> fst (resolvePhase badKeyEnv demoWorkflow ''r1''
            (snd (admissionChecks badKeyEnv demoWorkflow ''r1'' idle)))
       = Inr (\<lparr>blocks = [(''b1'', \<lparr>subBlocks = [(''n'', Num 3)]\<rparr>)], edges = Arr [],
               loops = Obj [], parallels = Obj []\<rparr>,
              [(''b1'', \<lparr>subBlocks = [(''n'', Num 3)]\<rparr>)],
              [(''A'', ''encA''), (''B'', ''encB'')],
              [(''b1'', [(''n'', Num 3)])])
   \<and> list_all (decrypts badKeyEnv) [(''A'', ''encA'')]
   \<and> decryptSecret badKeyEnv ''encB'' = Inl ''bad key''
   \<and> fst (executeWorkflow badKeyEnv demoWorkflow ''r1'' Undefined idle)
       = Inl (Error (''Failed to decrypt environment variable '' @ quoted ''B''
                @ '': bad key''))
   \<and> filter isExecute (events (snd (executeWorkflow badKeyEnv demoWorkflow ''r1''
        Undefined idle))) = []
   \<and> filter isPersistence (events (snd (executeWorkflow badKeyEnv demoWorkflow ''r1''
        Undefined idle)))
       = [PersistExecutionError ''wf1'' ''exec-1''
            (Error (''Failed to decrypt environment variable '' @ quoted ''B''
               @ '': bad key''))]
   \<and> fst (admissionChecks badKeyReportFailEnv demoWorkflow ''r1'' idle) = Inr ()
   \<and> fst (resolvePhase badKeyReportFailEnv demoWorkflow ''r1''
            (snd (admissionChecks badKeyReportFailEnv demoWorkflow ''r1'' idle)))
       = Inr (\<lparr>blocks = [(''b1'', \<lparr>subBlocks = [(''n'', Num 3)]\<rparr>)], edges = Arr [],
               loops = Obj [], parallels = Obj []\<rparr>,
              [(''b1'', \<lparr>subBlocks = [(''n'', Num 3)]\<rparr>)],
              [(''A'', ''encA''), (''B'', ''encB'')],
              [(''b1'', [(''n'', Num 3)])])
   \<and> list_all (decrypts badKeyReportFailEnv) [(''A'', ''encA'')]
   \<and> decryptSecret badKeyReportFailEnv ''encB'' = Inl ''bad key''
   \<and> fst (executeWorkflow badKeyReportFailEnv demoWorkflow ''r1'' Undefined idle)
       = Inl (Error ''sink down'')
   \<and> filter isExecute (events (snd (executeWorkflow badKeyReportFailEnv demoWorkflow ''r1''
        Undefined idle))) = []"
proof -
  let ?plain = "\<lparr>blocks = [(''b1'', \<lparr>subBlocks = [(''n'', Num 3)]\<rparr>)], edges = Arr [],
                 loops = Obj [], parallels = Obj []\<rparr>"
  let ?vars = "[(''A'', ''encA''), (''B'', ''encB'')]"
  let ?p = "(?plain, [(''b1'', \<lparr>subBlocks = [(''n'', Num 3)]\<rparr>)], ?vars,
             [(''b1'', [(''n'', Num 3)])])"
  let ?s0 = "snd (admissionChecks unreferencedEnv demoWorkflow ''r1'' idle)"
  let ?s1 = "snd (resolvePhase unreferencedEnv demoWorkflow ''r1'' ?s0)"
  let ?b0 = "snd (admissionChecks badKeyEnv demoWorkflow ''r1'' idle)"
  let ?b1 = "snd (resolvePhase badKeyEnv demoWorkflow ''r1'' ?b0)"
  let ?c0 = "snd (admissionChecks badKeyReportFailEnv demoWorkflow ''r1'' idle)"
  let ?c1 = "snd (resolvePhase badKeyReportFailEnv demoWorkflow ''r1'' ?c0)"
  note envs = unreferencedEnv_def badKeyEnv_def badKeyReportFailEnv_def
  have a: "fst (admissionChecks unreferencedEnv demoWorkflow ''r1'' idle) = Inr ()"
    by (simp add: admissionChecks_cases envs demo executionKeyOf_def)
  have r: "fst (resolvePhase unreferencedEnv demoWorkflow ''r1'' ?s0) = Inr ?p"
    by (simp add: admissionChecks_cases phases run envs demo)
  have ok: "list_all (decrypts unreferencedEnv) ?vars"
    by (simp add: decrypts_def envs demoEnv_def)
  have ab: "fst (admissionChecks badKeyEnv demoWorkflow ''r1'' idle) = Inr ()"
    by (simp add: admissionChecks_cases envs demo executionKeyOf_def)
  have rb: "fst (resolvePhase badKeyEnv demoWorkflow ''r1'' ?b0) = Inr ?p"
    by (simp add: admissionChecks_cases phases run envs demo)
  have okb: "list_all (decrypts badKeyEnv) [(''A'', ''encA'')]"
    and failb: "decryptSecret badKeyEnv ''encB'' = Inl ''bad key''"
    by (simp_all add: decrypts_def envs demoEnv_def)
  have a': "admissionChecks unreferencedEnv demoWorkflow ''r1'' idle = (Inr (), ?s0)"
    using a by (simp add: prod_eq_iff)
  have r': "resolvePhase unreferencedEnv demoWorkflow ''r1'' ?s0 = (Inr ?p, ?s1)"
    using r by (simp add: prod_eq_iff)
  have ab': "admissionChecks badKeyEnv demoWorkflow ''r1'' idle = (Inr (), ?b0)"
    using ab by (simp add: prod_eq_iff)
  have rb': "resolvePhase badKeyEnv demoWorkflow ''r1'' ?b0 = (Inr ?p, ?b1)"
    using rb by (simp add: prod_eq_iff)
  have decs: "filter isDecrypt (events ?s1) @ map (\<lambda>kv. DecryptSecret (snd kv)) ?vars
      = [DecryptSecret ''encA'', DecryptSecret ''encB'']"
    by (simp add: admissionChecks_cases phases run envs demo)
  have folded: "fold (\<lambda>kv. AList.update (fst kv)
                          (projr (decryptSecret unreferencedEnv (snd kv)))) ?vars []
      = [(''A'', ''x''), (''B'', ''y'')]"
    by (simp add: envs demoEnv_def)
  have wid: "workflow_id demoWorkflow = ''wf1''" and none: "events idle = []"
    by (simp_all add: demo)
  from C10_every_stored_variable_is_decrypted [OF a' r', where input = Undefined] ok
  have calls: "filter isDecrypt (events (snd (executeWorkflow unreferencedEnv demoWorkflow ''r1''
          Undefined idle)))
        = filter isDecrypt (events ?s1) @ map (\<lambda>kv. DecryptSecret (snd kv)) ?vars"
    and "\<exists>args. filter isExecute (events (snd (executeWorkflow unreferencedEnv demoWorkflow
              ''r1'' Undefined idle)))
            = filter isExecute (events idle) @ [Execute args (workflow_id demoWorkflow)]
          \<and> envVars args
            = fold (\<lambda>kv. AList.update (fst kv)
                          (projr (decryptSecret unreferencedEnv (snd kv)))) ?vars []"
    by blast+
  then obtain args where
    b1: "filter isExecute (events (snd (executeWorkflow unreferencedEnv demoWorkflow
              ''r1'' Undefined idle)))
            = filter isExecute (events idle) @ [Execute args (workflow_id demoWorkflow)]"
    and b2: "envVars args
            = fold (\<lambda>kv. AList.update (fst kv)
                          (projr (decryptSecret unreferencedEnv (snd kv)))) ?vars []"
    by blast
  have "filter isExecute (events (snd (executeWorkflow unreferencedEnv demoWorkflow
              ''r1'' Undefined idle))) = [Execute args ''wf1'']"
    using b1 by (simp add: wid none)
  moreover have "envVars args = [(''A'', ''x''), (''B'', ''y'')]"
    using b2 unfolding folded .
  moreover have "filter isDecrypt (events (snd (executeWorkflow unreferencedEnv demoWorkflow
        ''r1'' Undefined idle))) = [DecryptSecret ''encA'', DecryptSecret ''encB'']"
    using calls decs by (rule trans)
  ultimately have all: "filter isDecrypt (events (snd (executeWorkflow unreferencedEnv
        demoWorkflow ''r1'' Undefined idle))) = [DecryptSecret ''encA'', DecryptSecret ''encB'']
     \<and> (\<exists>args. filter isExecute (events (snd (executeWorkflow unreferencedEnv demoWorkflow
              ''r1'' Undefined idle))) = [Execute args ''wf1'']
          \<and> envVars args = [(''A'', ''x''), (''B'', ''y'')])"
    by blast
  have abort: "fst (executeWorkflow badKeyEnv demoWorkflow ''r1'' Undefined idle)
       = Inl (Error (''Failed to decrypt environment variable '' @ quoted ''B''
                @ '': bad key''))
     \<and> filter isExecute (events (snd (executeWorkflow badKeyEnv demoWorkflow ''r1''
          Undefined idle))) = []
     \<and> filter isPersistence (events (snd (executeWorkflow badKeyEnv demoWorkflow ''r1''
          Undefined idle)))
         = [PersistExecutionError ''wf1'' ''exec-1''
              (Error (''Failed to decrypt environment variable '' @ quoted ''B''
                 @ '': bad key''))]"
    using C10_every_stored_variable_is_decrypted [OF ab' rb', where front = "[(''A'', ''encA'')]"
        and name = "''B''" and encrypted = "''encB''" and rest = "[]" and msg = "''bad key''"
        and input = Undefined] okb failb
    by (simp add: idle_def envs demoEnv_def demoWorkflow_def)
  have ac: "fst (admissionChecks badKeyReportFailEnv demoWorkflow ''r1'' idle) = Inr ()"
    by (simp add: admissionChecks_cases envs demo executionKeyOf_def)
  have rc: "fst (resolvePhase badKeyReportFailEnv demoWorkflow ''r1'' ?c0) = Inr ?p"
    by (simp add: admissionChecks_cases phases run envs demo)
  have okc: "list_all (decrypts badKeyReportFailEnv) [(''A'', ''encA'')]"
    and failc: "decryptSecret badKeyReportFailEnv ''encB'' = Inl ''bad key''"
    by (simp_all add: decrypts_def envs demoEnv_def)
  have ac': "admissionChecks badKeyReportFailEnv demoWorkflow ''r1'' idle = (Inr (), ?c0)"
    using ac by (simp add: prod_eq_iff)
  have rc': "resolvePhase badKeyReportFailEnv demoWorkflow ''r1'' ?c0 = (Inr ?p, ?c1)"
    using rc by (simp add: prod_eq_iff)
  have replaced: "fst (executeWorkflow badKeyReportFailEnv demoWorkflow ''r1'' Undefined idle)
       = Inl (Error ''sink down'')
     \<and> filter isExecute (events (snd (executeWorkflow badKeyReportFailEnv demoWorkflow ''r1''
          Undefined idle))) = []"
    using C10_every_stored_variable_is_decrypted [OF ac' rc', where front = "[(''A'', ''encA'')]"
        and name = "''B''" and encrypted = "''encB''" and rest = "[]" and msg = "''bad key''"
        and input = Undefined] okc failc
    by (simp add: idle_def envs demoEnv_def demoWorkflow_def)
  from a r ok all ab rb okb failb abort ac rc okc failc replaced
  show ?thesis by (intro conjI) simp_all
qed

text \<open>
  C10 as stated fails when the report to the persistence sink fails: the second stored
  variable, which no block refers to, does not decrypt, the call is aborted before the
  engine is invoked, but its error is the sink's and names no variable.
\<close>

theorem C10_sink_failure_counterexample:
  "decryptSecret badKeyReportFailEnv ''encB'' = Inl ''bad key''
   \<and> fst (executeWorkflow badKeyReportFailEnv demoWorkflow ''r1'' Undefined idle)
       = Inl (Error ''sink down'')
   \<and> events (snd (executeWorkflow badKeyReportFailEnv demoWorkflow ''r1'' Undefined idle))
       = [CheckUsage ''u1'',
          Log INFO ''[r1] Executing workflow with input:'',
          Log INFO ''[r1] Using input directly for workflow:'',
          Log INFO ''[r1] Starting workflow execution: wf1'',
          Log DEBUG ''[r1] Loading workflow wf1 from normalized tables'',
          LoadWorkflow ''wf1'',
          Log INFO ''[r1] Using normalized tables for workflow execution: wf1'',
          SelectEnvironment ''u1'',
          DecryptSecret ''encA'',
          DecryptSecret ''encB'',
          Log ERROR (''[r1] Failed to decrypt environment variable '' @ quoted ''B''),
          Log ERROR ''[r1] Workflow execution failed: wf1'',
          PersistExecutionError ''wf1'' ''exec-1''
            (Error (''Failed to decrypt environment variable '' @ quoted ''B''
               @ '': bad key''))]"
  by (simp add: phases run demo unreferencedEnv_def badKeyEnv_def badKeyReportFailEnv_def)

end
